theory Spec2Isabelle
  imports Main "HOL-Library.Word"
begin

section \<open>Streaming client (src/src/deepseekClient.ts)\<close>

subsection \<open>Wire data\<close>

text \<open>
  Text is a list of characters, taken from the code units below 256; a raw chunk read
  from the response body is a list of bytes. Both are \<^typ>\<open>char list\<close>; the type synonym
  keeps them apart in signatures.
\<close>

type_synonym bytes = "char list"

text \<open>\<^verbatim>\<open>DeepSeekToolCall\<close>: the \<^verbatim>\<open>type\<close> field is the constant \<^verbatim>\<open>'function'\<close> and is left out.\<close>

record DeepSeekToolCall =
  tc_id :: string
  fn_name :: string
  fn_arguments :: string

text \<open>
  \<^verbatim>\<open>DeepSeekStreamChunk\<close>, restricted to the fields that \<^verbatim>\<open>streamChatCompletion\<close> reads.
  An optional field (\<^verbatim>\<open>content?: string\<close>) is an \<^typ>\<open>'a option\<close>, and
  \<^verbatim>\<open>finish_reason: string | null\<close> is a \<^typ>\<open>string option\<close>.
\<close>

record function_fragment =
  frag_name :: "string option"
  frag_arguments :: "string option"

record tool_call_fragment =
  frag_index :: int
  frag_id :: "string option"
  frag_function :: "function_fragment option"

record delta =
  delta_content :: "string option"
  delta_reasoning_content :: "string option"
  delta_tool_calls :: "tool_call_fragment list option"

record choice =
  choice_delta :: delta
  finish_reason :: "string option"

record DeepSeekStreamChunk =
  choices :: "choice list"

subsection \<open>Errors and callbacks\<close>

text \<open>
  A JavaScript \<^verbatim>\<open>Error\<close> object is its \<^verbatim>\<open>name\<close> and its \<^verbatim>\<open>message\<close>. A thrown value
  is either such an object or any other value, of which only \<^verbatim>\<open>String(value)\<close> is used.
\<close>

datatype js_error = JsError (err_name: string) (err_message: string)

datatype thrown = ThrownError js_error | ThrownOther string

text \<open>
  \<^verbatim>\<open>StreamCallbacks\<close>: a session is observed through the sequence of callback invocations
  it makes, in order.
\<close>

datatype callback =
    OnContent string
  | OnReasoningContent string
  | OnToolCall DeepSeekToolCall
  | OnError js_error
  | OnDone

subsection \<open>Strings\<close>

text \<open>
  \<^verbatim>\<open>String.prototype.trim\<close> removes white space and line terminators from both ends. Among
  the characters below 256 these are TAB, LF, VT, FF, CR, SPACE and NBSP.
\<close>

definition is_js_space :: "char \<Rightarrow> bool" where
  "is_js_space c \<longleftrightarrow> c \<in> set [CHR 0x09, CHR 0x0A, CHR 0x0B, CHR 0x0C, CHR 0x0D, CHR 0x20, CHR 0xA0]"

definition trim :: "string \<Rightarrow> string" where
  "trim s = rev (dropWhile is_js_space (rev (dropWhile is_js_space s)))"

definition startsWith :: "string \<Rightarrow> string \<Rightarrow> bool" where
  "startsWith s p \<longleftrightarrow> take (length p) s = p"

text \<open>\<^verbatim>\<open>s.split('\n')\<close>: the pieces between line feeds; never empty.\<close>

fun split_nl :: "string \<Rightarrow> string list" where
  "split_nl [] = [] # []"
| "split_nl (c # cs) =
     (if c = CHR 0x0A then [] # split_nl cs
      else (case split_nl cs of [] \<Rightarrow> [c] # [] | l # ls \<Rightarrow> (c # l) # ls))"

subsection \<open>Pending tool calls\<close>

text \<open>
  \<^verbatim>\<open>pendingToolCalls\<close> is a \<^verbatim>\<open>Map<number, DeepSeekToolCall>\<close>. A JavaScript \<^verbatim>\<open>Map\<close> iterates
  in insertion order, so it is an association list in that order: \<^verbatim>\<open>get\<close> is
  \<^const>\<open>map_of\<close>, \<^verbatim>\<open>set\<close> overwrites in place or appends, \<^verbatim>\<open>values()\<close> is the list of
  second components.
\<close>

type_synonym pending_map = "(int \<times> DeepSeekToolCall) list"

fun Map_set :: "'k \<Rightarrow> 'v \<Rightarrow> ('k \<times> 'v) list \<Rightarrow> ('k \<times> 'v) list" where
  "Map_set k v [] = [(k, v)]"
| "Map_set k v ((k', v') # m) =
     (if k' = k then (k, v) # m else (k', v') # Map_set k v m)"

definition Map_values :: "('k \<times> 'v) list \<Rightarrow> 'v list" where
  "Map_values m = map snd m"

definition function_name :: "tool_call_fragment \<Rightarrow> string option" where
  "function_name tc = (case frag_function tc of None \<Rightarrow> None | Some f \<Rightarrow> frag_name f)"

definition function_arguments :: "tool_call_fragment \<Rightarrow> string option" where
  "function_arguments tc = (case frag_function tc of None \<Rightarrow> None | Some f \<Rightarrow> frag_arguments f)"

text \<open>
  Lines 197-202: \<^verbatim>\<open>if (t) { s += t }\<close> for an optional string \<^verbatim>\<open>t\<close>.
\<close>

definition append_text :: "string \<Rightarrow> string option \<Rightarrow> string" where
  "append_text s t = (case t of None \<Rightarrow> s | Some x \<Rightarrow> if x \<noteq> [] then s @ x else s)"

definition append_fragment :: "tool_call_fragment \<Rightarrow> DeepSeekToolCall \<Rightarrow> DeepSeekToolCall" where
  "append_fragment tc pending =
     pending\<lparr>fn_name := append_text (fn_name pending) (function_name tc),
             fn_arguments := append_text (fn_arguments pending) (function_arguments tc)\<rparr>"

text \<open>
  Lines 182-203, the body of the loop over \<^verbatim>\<open>choice.delta.tool_calls\<close>. The entry is an
  object held by the map, so appending to its strings changes the map's entry in place.
  An entry is created only when none exists at the index and the fragment's id is truthy.
\<close>

definition create_pending :: "tool_call_fragment \<Rightarrow> pending_map \<Rightarrow> pending_map" where
  "create_pending tc p =
     (case map_of p (frag_index tc) of
        Some pending \<Rightarrow> p
      | None \<Rightarrow>
          (case frag_id tc of
             None \<Rightarrow> p
           | Some i \<Rightarrow>
               if i \<noteq> []
               then Map_set (frag_index tc) \<lparr>tc_id = i, fn_name = [], fn_arguments = []\<rparr> p
               else p))"

definition merge_fragment :: "tool_call_fragment \<Rightarrow> pending_map \<Rightarrow> pending_map" where
  "merge_fragment tc p =
     (let p1 = create_pending tc p
      in case map_of p1 (frag_index tc) of
           None \<Rightarrow> p1
         | Some pending \<Rightarrow> Map_set (frag_index tc) (append_fragment tc pending) p1)"

text \<open>
  Lines 168-212: one decoded payload. Only \<^verbatim>\<open>choices[0]\<close> is read. \<^verbatim>\<open>onReasoningContent\<close>
  is optional in \<^verbatim>\<open>StreamCallbacks\<close>; the flag says whether the caller supplied it.
  \<^verbatim>\<open>if (t) { f(t) }\<close> for an optional string \<^verbatim>\<open>t\<close> is \<open>emit_text\<close>.
\<close>

definition emit_text :: "(string \<Rightarrow> callback) \<Rightarrow> string option \<Rightarrow> callback list" where
  "emit_text f t = (case t of None \<Rightarrow> [] | Some x \<Rightarrow> if x \<noteq> [] then [f x] else [])"

definition drain :: "pending_map \<Rightarrow> callback list" where
  "drain p = map OnToolCall (Map_values p)"

definition handle_chunk ::
  "bool \<Rightarrow> DeepSeekStreamChunk \<Rightarrow> pending_map \<Rightarrow> callback list \<times> pending_map" where
  "handle_chunk has_reasoning_cb chunk p =
     (case choices chunk of
        [] \<Rightarrow> ([], p)
      | choice # _ \<Rightarrow>
          (let d = choice_delta choice;
               ev_reasoning =
                 (if has_reasoning_cb
                  then emit_text OnReasoningContent (delta_reasoning_content d) else []);
               ev_content = emit_text OnContent (delta_content d);
               p1 = (case delta_tool_calls d of
                       None \<Rightarrow> p
                     | Some tcs \<Rightarrow> fold merge_fragment tcs p)
           in if finish_reason choice = Some ''tool_calls''
              then (ev_reasoning @ ev_content @ drain p1, [])
              else (ev_reasoning @ ev_content, p1)))"

text \<open>
  Lines 149-217: one line of the buffer. \<^verbatim>\<open>JSON.parse\<close> belongs to the platform: it is
  the parameter \<open>parse\<close>, which returns \<^const>\<open>None\<close> where \<^verbatim>\<open>JSON.parse\<close> throws, and the
  payload typed as the source types it (\<^verbatim>\<open>const chunk: DeepSeekStreamChunk\<close>) otherwise;
  a payload that is JSON of another shape is not an input of the model.
  The third component of the result says that the function returned (line 160).
\<close>

definition process_line ::
  "(string \<Rightarrow> DeepSeekStreamChunk option) \<Rightarrow> bool \<Rightarrow> string \<Rightarrow> pending_map
     \<Rightarrow> callback list \<times> pending_map \<times> bool" where
  "process_line parse has_reasoning_cb line p =
     (let trimmed = trim line
      in if trimmed = [] \<or> startsWith trimmed '':'' then ([], p, False)
         else if trimmed = ''data: [DONE]'' then (drain p @ [OnDone], p, True)
         else if startsWith trimmed ''data: ''
         then (case parse (drop 6 trimmed) of
                 None \<Rightarrow> ([], p, False)
               | Some chunk \<Rightarrow>
                   (case handle_chunk has_reasoning_cb chunk p of
                      (evs, p') \<Rightarrow> (evs, p', False)))
         else ([], p, False))"

fun process_lines ::
  "(string \<Rightarrow> DeepSeekStreamChunk option) \<Rightarrow> bool \<Rightarrow> string list \<Rightarrow> pending_map
     \<Rightarrow> callback list \<times> pending_map \<times> bool" where
  "process_lines parse cb [] p = ([], p, False)"
| "process_lines parse cb (l # ls) p =
     (case process_line parse cb l p of
        (evs, p', True) \<Rightarrow> (evs, p', True)
      | (evs, p', False) \<Rightarrow>
          (case process_lines parse cb ls p' of
             (evs2, p'', r) \<Rightarrow> (evs @ evs2, p'', r)))"

subsection \<open>The read loop\<close>

text \<open>
  \<^verbatim>\<open>TextDecoder.decode(value, {stream: true})\<close> belongs to the platform. It consumes its
  input byte by byte and keeps the bytes of an unfinished character in its own state, so
  it is a step function \<open>dstep\<close> on a decoder state, run over the bytes of the chunk.
\<close>

fun decode :: "('s \<Rightarrow> char \<Rightarrow> 's \<times> string) \<Rightarrow> 's \<Rightarrow> bytes \<Rightarrow> 's \<times> string" where
  "decode dstep s [] = (s, [])"
| "decode dstep s (b # bs) =
     (case dstep s b of
        (s1, t1) \<Rightarrow> (case decode dstep s1 bs of (s2, t2) \<Rightarrow> (s2, t1 @ t2)))"

text \<open>
  What the loop meets, one element per iteration: the token reports a cancellation at the
  check of line 132; \<^verbatim>\<open>reader.read()\<close> resolves with a chunk; \<^verbatim>\<open>reader.read()\<close> rejects
  (with an \<^verbatim>\<open>AbortError\<close> when the cancellation listener aborted the transfer during the
  read). After the last element \<^verbatim>\<open>reader.read()\<close> resolves with \<^verbatim>\<open>done\<close>.
\<close>

datatype stream_step = CancellationRequested | Chunk bytes | ReadThrows thrown

text \<open>Lines 222-227, the \<^verbatim>\<open>catch\<close> block.\<close>

definition catch_block :: "thrown \<Rightarrow> callback list" where
  "catch_block t =
     (case t of
        ThrownError e \<Rightarrow> if err_name e = ''AbortError'' then [OnDone] else [OnError e]
      | ThrownOther s \<Rightarrow> [OnError (JsError ''Error'' s)])"

text \<open>Lines 131-221. The arguments after the steps are the decoder, \<^verbatim>\<open>buffer\<close> and \<^verbatim>\<open>pendingToolCalls\<close>.\<close>

fun read_loop ::
  "(string \<Rightarrow> DeepSeekStreamChunk option) \<Rightarrow> bool \<Rightarrow> ('s \<Rightarrow> char \<Rightarrow> 's \<times> string)
     \<Rightarrow> stream_step list \<Rightarrow> 's \<Rightarrow> string \<Rightarrow> pending_map \<Rightarrow> callback list" where
  "read_loop parse cb dstep [] ds buffer p = [OnDone]"
| "read_loop parse cb dstep (CancellationRequested # rest) ds buffer p = [OnDone]"
| "read_loop parse cb dstep (ReadThrows t # rest) ds buffer p = catch_block t"
| "read_loop parse cb dstep (Chunk v # rest) ds buffer p =
     (case decode dstep ds v of
        (ds', text) \<Rightarrow>
          (let lines = split_nl (buffer @ text)
           in case process_lines parse cb (butlast lines) p of
                (evs, p', returned) \<Rightarrow>
                  if returned then evs
                  else evs @ read_loop parse cb dstep rest ds' (last lines) p'))"

subsection \<open>The error body of a failed request\<close>

text \<open>
  \<^verbatim>\<open>JSON.parse(errorText)\<close> has type \<^verbatim>\<open>any\<close>, so here the parsed value is a JSON value
  read with JavaScript's dynamic rules. A number is given by the two things that the code
  observes of it: whether it is truthy (neither \<^verbatim>\<open>0\<close> nor \<^verbatim>\<open>-0\<close>) and the text that JavaScript
  prints for it. An object is the list of its own properties. A property that is absent
  (\<^verbatim>\<open>undefined\<close>) is \<^const>\<open>None\<close>.
\<close>

datatype json =
    JNull
  | JBool bool
  | JNum bool string
  | JStr string
  | JArr "json list"
  | JObj "(string \<times> json) list"

definition digit_char :: "nat \<Rightarrow> char" where
  "digit_char d = ''0123456789'' ! d"

fun show_nat :: "nat \<Rightarrow> string" where
  "show_nat n = (if n < 10 then [digit_char n] else show_nat (n div 10) @ [digit_char (n mod 10)])"

fun join_comma :: "string list \<Rightarrow> string" where
  "join_comma [] = []"
| "join_comma [x] = x"
| "join_comma (x # y # ys) = x @ '','' @ join_comma (y # ys)"

text \<open>The texts of all the elements, or \<^const>\<open>None\<close> when the conversion of one of them throws.\<close>

fun all_texts :: "string option list \<Rightarrow> string list option" where
  "all_texts [] = Some []"
| "all_texts (None # xs) = None"
| "all_texts (Some t # xs) = (case all_texts xs of None \<Rightarrow> None | Some ts \<Rightarrow> Some (t # ts))"

text \<open>
  The conversion to a string that a template literal applies; \<^const>\<open>None\<close> when it throws a
  \<^verbatim>\<open>TypeError\<close>. An array is its elements joined by commas, with \<^verbatim>\<open>null\<close> elements empty. An
  object without a property \<^verbatim>\<open>toString\<close> of its own is \<^verbatim>\<open>[object Object]\<close>, by the method it
  inherits. An object with such a property cannot be converted: a JSON value is not
  callable, so the property hides the inherited method, and \<^verbatim>\<open>valueOf\<close> (its own, not callable,
  or the inherited one, which returns the object) gives no primitive value either.
\<close>

fun js_to_string :: "json \<Rightarrow> string option" where
  "js_to_string JNull = Some ''null''"
| "js_to_string (JBool b) = Some (if b then ''true'' else ''false'')"
| "js_to_string (JNum nonzero printed) = Some printed"
| "js_to_string (JStr s) = Some s"
| "js_to_string (JArr xs) =
     (case all_texts (map (\<lambda>x. if x = JNull then Some [] else js_to_string x) xs) of
        None \<Rightarrow> None
      | Some ts \<Rightarrow> Some (join_comma ts))"
| "js_to_string (JObj kvs) =
     (if map_of kvs ''toString'' = None then Some ''[object Object]'' else None)"

text \<open>
  Reading the property \<^verbatim>\<open>error\<close> or \<^verbatim>\<open>message\<close> of a value other than \<^verbatim>\<open>null\<close>: only an
  object can have it (no prototype defines either name).
\<close>

definition get_prop :: "json \<Rightarrow> string \<Rightarrow> json option" where
  "get_prop v k = (case v of JObj kvs \<Rightarrow> map_of kvs k | _ \<Rightarrow> None)"

fun js_truthy :: "json option \<Rightarrow> bool" where
  "js_truthy None = False"
| "js_truthy (Some JNull) = False"
| "js_truthy (Some (JBool b)) = b"
| "js_truthy (Some (JNum nonzero printed)) = nonzero"
| "js_truthy (Some (JStr s)) = (s \<noteq> [])"
| "js_truthy (Some (JArr xs)) = True"
| "js_truthy (Some (JObj kvs)) = True"

text \<open>\<^verbatim>\<open>v?.message\<close>: \<^verbatim>\<open>undefined\<close> when \<^verbatim>\<open>v\<close> is \<^verbatim>\<open>undefined\<close> or \<^verbatim>\<open>null\<close>.\<close>

definition optional_message :: "json option \<Rightarrow> json option" where
  "optional_message v =
     (case v of None \<Rightarrow> None | Some JNull \<Rightarrow> None | Some x \<Rightarrow> get_prop x ''message'')"

text \<open>\<^verbatim>\<open>a || d\<close>, where \<^verbatim>\<open>a\<close> may be \<^verbatim>\<open>undefined\<close>: \<^verbatim>\<open>a\<close> when it is truthy, else \<^verbatim>\<open>d\<close>.\<close>

definition js_or :: "json option \<Rightarrow> json \<Rightarrow> json" where
  "js_or a d = (case a of None \<Rightarrow> d | Some x \<Rightarrow> if js_truthy (Some x) then x else d)"

text \<open>
  Lines 109-116: the value of the variable \<^verbatim>\<open>errorMessage\<close>. \<^verbatim>\<open>JSON.parse\<close> is the parameter
  \<open>parse\<close> (\<^const>\<open>None\<close> where it throws). Reading \<^verbatim>\<open>errorJson.error\<close> of \<^verbatim>\<open>null\<close> throws a
  \<^verbatim>\<open>TypeError\<close>, which the same \<^verbatim>\<open>catch\<close> turns into the raw text. The value is any JSON value
  (the declared type \<^verbatim>\<open>string\<close> is not checked when the program runs).
\<close>

definition errorMessage :: "(string \<Rightarrow> json option) \<Rightarrow> string \<Rightarrow> json" where
  "errorMessage parse errorText =
     (case parse errorText of
        None \<Rightarrow> JStr errorText
      | Some JNull \<Rightarrow> JStr errorText
      | Some errorJson \<Rightarrow>
          js_or (optional_message (get_prop errorJson ''error''))
            (js_or (get_prop errorJson ''message'') (JStr errorText)))"

subsection \<open>The session\<close>

text \<open>
  What \<^verbatim>\<open>fetch\<close> and the response give: \<^verbatim>\<open>fetch\<close> rejects, or resolves with a response
  of which the function reads \<^verbatim>\<open>ok\<close>, \<^verbatim>\<open>status\<close> (an \<^verbatim>\<open>unsigned short\<close>), the outcome of
  \<^verbatim>\<open>text()\<close> (read only when \<^verbatim>\<open>ok\<close> is false) and the body (\<^const>\<open>None\<close> for \<^verbatim>\<open>null\<close>), given by
  the steps its reader goes through.
\<close>

record response =
  resp_ok :: bool
  resp_status :: "16 word"
  resp_text :: "thrown + string"
  resp_body :: "stream_step list option"

datatype fetch_outcome = FetchRejects thrown | FetchResolves response

text \<open>
  The functions of the platform that the session calls, and the message that the engine
  gives to the \<^verbatim>\<open>TypeError\<close> of a value that cannot be converted to a string.
\<close>

record 's platform =
  parse_chunk :: "string \<Rightarrow> DeepSeekStreamChunk option"
  parse_json :: "string \<Rightarrow> json option"
  decoder_step :: "'s \<Rightarrow> char \<Rightarrow> 's \<times> string"
  decoder_init :: 's
  type_error_message :: string

text \<open>
  Line 118: the value thrown. The template literal converts the status and then the
  variable \<^verbatim>\<open>errorMessage\<close>; when that conversion throws, its \<^verbatim>\<open>TypeError\<close> is what leaves
  the statement, and no \<^verbatim>\<open>Error\<close> is made.
\<close>

definition api_error :: "'s platform \<Rightarrow> 16 word \<Rightarrow> json \<Rightarrow> js_error" where
  "api_error P status v =
     (case js_to_string v of
        None \<Rightarrow> JsError ''TypeError'' (type_error_message P)
      | Some m \<Rightarrow> JsError ''Error'' (''DeepSeek API error ('' @ show_nat (unat status) @ ''): '' @ m))"

text \<open>
  Lines 82-231. The result is the sequence of callback invocations. The cancellation
  listener's disposal in \<^verbatim>\<open>finally\<close> invokes no callback and is left out, as is the
  \<^verbatim>\<open>console.error\<close> of line 215.
\<close>

definition streamChatCompletion ::
  "'s platform \<Rightarrow> bool \<Rightarrow> fetch_outcome \<Rightarrow> callback list" where
  "streamChatCompletion P has_reasoning_cb outcome =
     (case outcome of
        FetchRejects t \<Rightarrow> catch_block t
      | FetchResolves r \<Rightarrow>
          if \<not> resp_ok r
          then (case resp_text r of
                  Inl t \<Rightarrow> catch_block t
                | Inr errorText \<Rightarrow>
                    catch_block (ThrownError
                      (api_error P (resp_status r) (errorMessage (parse_json P) errorText))))
          else (case resp_body r of
                  None \<Rightarrow> catch_block (ThrownError (JsError ''Error'' ''No response body received''))
                | Some steps \<Rightarrow>
                    read_loop (parse_chunk P) has_reasoning_cb (decoder_step P) steps
                      (decoder_init P) [] []))"

section \<open>Provider (src/src/provider.ts)\<close>

subsection \<open>Messages\<close>

text \<open>
  \<^verbatim>\<open>vscode.LanguageModelChatMessageRole\<close> and the content parts told apart by
  \<^verbatim>\<open>instanceof\<close>. A part or an item of another class is \<open>OtherPart\<close> or \<open>ItemOther\<close>.
\<close>

datatype chat_role = User | Assistant | OtherRole

datatype item = ItemText string | ItemOther json

datatype part =
    TextPart string
  | ToolCallPart string string json
  | ToolResultPart string "item list"
  | OtherPart

record chat_message =
  msg_role :: chat_role
  msg_content :: "part list"

text \<open>\<^verbatim>\<open>DeepSeekMessage\<close>; an optional field that is not set is \<^const>\<open>None\<close>.\<close>

record DeepSeekMessage =
  role :: string
  content :: string
  tool_call_id :: "string option"
  tool_calls :: "DeepSeekToolCall list option"
  reasoning_content :: "string option"

definition mapRole :: "chat_role \<Rightarrow> string" where
  "mapRole r = (case r of User \<Rightarrow> ''user'' | Assistant \<Rightarrow> ''assistant'' | OtherRole \<Rightarrow> ''user'')"

text \<open>Lines 211-216: the text items of a tool result, concatenated.\<close>

fun toolContent :: "item list \<Rightarrow> string" where
  "toolContent [] = []"
| "toolContent (ItemText v # xs) = v @ toolContent xs"
| "toolContent (ItemOther j # xs) = toolContent xs"

text \<open>
  Lines 198-222: the loop over the parts of one message, on the triple
  (\<^verbatim>\<open>content\<close>, \<^verbatim>\<open>toolCalls\<close>, \<^verbatim>\<open>toolResults\<close>). \<^verbatim>\<open>JSON.stringify\<close> is a parameter, once for
  a tool call's input and once for the items of a tool result.
\<close>

type_synonym part_acc = "string \<times> DeepSeekToolCall list \<times> (string \<times> string) list"

definition collect_part ::
  "(json \<Rightarrow> string) \<Rightarrow> (item list \<Rightarrow> string) \<Rightarrow> part \<Rightarrow> part_acc \<Rightarrow> part_acc" where
  "collect_part stringify stringify_items pt acc =
     (case acc of
        (text, toolCalls, toolResults) \<Rightarrow>
          (case pt of
             TextPart v \<Rightarrow> (text @ v, toolCalls, toolResults)
           | ToolCallPart callId nm input \<Rightarrow>
               (text,
                toolCalls @ [\<lparr>tc_id = callId, fn_name = nm, fn_arguments = stringify input\<rparr>],
                toolResults)
           | ToolResultPart callId items \<Rightarrow>
               (text, toolCalls,
                toolResults @
                  [(callId,
                    if toolContent items \<noteq> [] then toolContent items
                    else stringify_items items)])
           | OtherPart \<Rightarrow> acc))"

text \<open>
  \<^verbatim>\<open>reasoningCache\<close> is a \<^verbatim>\<open>Map<string, string>\<close>, an association list in insertion order.
  Lines 228-234: the first tool call whose cached text is not empty.
\<close>

type_synonym reasoning_cache = "(string \<times> string) list"

fun cached_reasoning :: "reasoning_cache \<Rightarrow> DeepSeekToolCall list \<Rightarrow> string option" where
  "cached_reasoning cache [] = None"
| "cached_reasoning cache (tc # tcs) =
     (case map_of cache (tc_id tc) of
        None \<Rightarrow> cached_reasoning cache tcs
      | Some cached \<Rightarrow> if cached \<noteq> [] then Some cached else cached_reasoning cache tcs)"

text \<open>Lines 188-261: the wire messages that one message gives.\<close>

definition convertMessage ::
  "(json \<Rightarrow> string) \<Rightarrow> (item list \<Rightarrow> string) \<Rightarrow> reasoning_cache \<Rightarrow> bool \<Rightarrow> chat_message
     \<Rightarrow> DeepSeekMessage list" where
  "convertMessage stringify stringify_items cache isReasoner m =
     (case fold (collect_part stringify stringify_items) (msg_content m) ([], [], []) of
        (text, toolCalls, toolResults) \<Rightarrow>
          (if mapRole (msg_role m) = ''assistant''
           then [\<lparr>role = ''assistant'', content = text, tool_call_id = None,
                  tool_calls = (if toolCalls \<noteq> [] then Some toolCalls else None),
                  reasoning_content =
                    (if isReasoner
                     then Some (case cached_reasoning cache toolCalls of None \<Rightarrow> [] | Some c \<Rightarrow> c)
                     else None)\<rparr>]
           else if text \<noteq> []
           then [\<lparr>role = mapRole (msg_role m), content = text, tool_call_id = None,
                  tool_calls = None, reasoning_content = None\<rparr>]
           else []) @
          map (\<lambda>tr. \<lparr>role = ''tool'', content = snd tr, tool_call_id = Some (fst tr),
                       tool_calls = None, reasoning_content = None\<rparr>) toolResults)"

fun convertMessages ::
  "(json \<Rightarrow> string) \<Rightarrow> (item list \<Rightarrow> string) \<Rightarrow> reasoning_cache \<Rightarrow> bool \<Rightarrow> chat_message list
     \<Rightarrow> DeepSeekMessage list" where
  "convertMessages stringify stringify_items cache isReasoner [] = []"
| "convertMessages stringify stringify_items cache isReasoner (m # ms) =
     convertMessage stringify stringify_items cache isReasoner m @
     convertMessages stringify stringify_items cache isReasoner ms"

subsection \<open>The reasoning cache during a session\<close>

text \<open>
  The state that the callbacks of \<^verbatim>\<open>provideLanguageModelChatResponse\<close> share: the
  provider's \<^verbatim>\<open>reasoningCache\<close>, the session's \<^verbatim>\<open>currentReasoningContent\<close> and
  \<^verbatim>\<open>toolCallIds\<close>, and whether the promise has been resolved or rejected. The parts
  reported to \<^verbatim>\<open>progress\<close> do not touch the cache and are left out.
\<close>

datatype settled = Pending | Resolved | Rejected js_error

record session =
  reasoningCache :: reasoning_cache
  currentReasoningContent :: string
  toolCallIds :: "string list"
  promise :: settled

text \<open>
  \<^verbatim>\<open>clear()\<close> and \<^verbatim>\<open>delete(k)\<close> of a \<^verbatim>\<open>Map\<close>; the keys of a map are distinct, so removing the
  entries with the key removes the entry of the key.
\<close>

definition Map_clear :: "('k \<times> 'v) list \<Rightarrow> ('k \<times> 'v) list" where
  "Map_clear m = []"

definition Map_delete :: "'k \<Rightarrow> ('k \<times> 'v) list \<Rightarrow> ('k \<times> 'v) list" where
  "Map_delete k m = filter (\<lambda>kv. fst kv \<noteq> k) m"

text \<open>Lines 148-153.\<close>

definition trim_cache :: "reasoning_cache \<Rightarrow> reasoning_cache" where
  "trim_cache cache =
     (if length cache > 50
      then fold Map_delete (take (length cache - 50) (map fst cache)) cache
      else cache)"

text \<open>Lines 122-127 (the report to \<^verbatim>\<open>progress\<close> apart).\<close>

definition onToolCall :: "bool \<Rightarrow> DeepSeekToolCall \<Rightarrow> session \<Rightarrow> session" where
  "onToolCall isReasoner toolCall st =
     (let st1 = st\<lparr>toolCallIds := toolCallIds st @ [tc_id toolCall]\<rparr>
      in if isReasoner \<and> currentReasoningContent st1 \<noteq> []
         then st1\<lparr>reasoningCache :=
                    Map_set (tc_id toolCall) (currentReasoningContent st1) (reasoningCache st1),
                  currentReasoningContent := []\<rparr>
         else st1)"

text \<open>
  Lines 143-146. The identifier made from \<^verbatim>\<open>Date.now()\<close> and \<^verbatim>\<open>Math.random()\<close> is the
  parameter \<open>responseMessageId\<close>.
\<close>

definition store_response_reasoning :: "bool \<Rightarrow> string \<Rightarrow> session \<Rightarrow> session" where
  "store_response_reasoning isReasoner responseMessageId st =
     (if isReasoner \<and> currentReasoningContent st \<noteq> []
      then st\<lparr>reasoningCache :=
                 Map_set responseMessageId (currentReasoningContent st) (reasoningCache st)\<rparr>
      else st)"

text \<open>Lines 142-155.\<close>

definition onDone :: "bool \<Rightarrow> string \<Rightarrow> session \<Rightarrow> session" where
  "onDone isReasoner responseMessageId st =
     (let st1 = store_response_reasoning isReasoner responseMessageId st
      in st1\<lparr>reasoningCache := trim_cache (reasoningCache st1),
              promise := (if promise st1 = Pending then Resolved else promise st1)\<rparr>)"

text \<open>Lines 116-155: one callback invocation. A settled promise stays as it is.\<close>

definition handle_callback :: "bool \<Rightarrow> string \<Rightarrow> callback \<Rightarrow> session \<Rightarrow> session" where
  "handle_callback isReasoner responseMessageId cb st =
     (case cb of
        OnContent c \<Rightarrow> st
      | OnReasoningContent c \<Rightarrow> st\<lparr>currentReasoningContent := currentReasoningContent st @ c\<rparr>
      | OnToolCall toolCall \<Rightarrow> onToolCall isReasoner toolCall st
      | OnError e \<Rightarrow> st\<lparr>promise := (if promise st = Pending then Rejected e else promise st)\<rparr>
      | OnDone \<Rightarrow> onDone isReasoner responseMessageId st)"

text \<open>
  Lines 97-159, once the key is there: the cache is cleared, and the callbacks that the
  client invokes run on the session's state. The argument \<open>cache\<close> is the provider's
  cache as the previous sessions left it.
\<close>

definition provideLanguageModelChatResponse ::
  "bool \<Rightarrow> string \<Rightarrow> reasoning_cache \<Rightarrow> callback list \<Rightarrow> session" where
  "provideLanguageModelChatResponse isReasoner responseMessageId cache cbs =
     fold (handle_callback isReasoner responseMessageId) cbs
       \<lparr>reasoningCache = Map_clear cache, currentReasoningContent = [], toolCallIds = [],
        promise = Pending\<rparr>"

section \<open>Notions used by the properties\<close>

subsection \<open>Traces of callbacks\<close>

definition is_done :: "callback \<Rightarrow> bool" where
  "is_done cb = (case cb of OnDone \<Rightarrow> True | _ \<Rightarrow> False)"

definition is_error :: "callback \<Rightarrow> bool" where
  "is_error cb = (case cb of OnError e \<Rightarrow> True | _ \<Rightarrow> False)"


text \<open>A trace without a completion or an error callback.\<close>

definition quiet :: "callback list \<Rightarrow> bool" where
  "quiet evs \<longleftrightarrow> filter is_done evs = [] \<and> filter is_error evs = []"

text \<open>Exactly one completion or error callback, and it comes last.\<close>

definition settles_once :: "callback list \<Rightarrow> bool" where
  "settles_once tr \<longleftrightarrow>
     length (filter is_done tr) + length (filter is_error tr) = 1 \<and>
     tr \<noteq> [] \<and> (is_done (last tr) \<or> is_error (last tr))"

definition nonempty_text :: "callback \<Rightarrow> bool" where
  "nonempty_text cb =
     (case cb of OnContent s \<Rightarrow> s \<noteq> [] | OnReasoningContent s \<Rightarrow> s \<noteq> [] | _ \<Rightarrow> True)"

text \<open>
  The two ways in which the loop meets a cancellation: the check before a read, and a
  read that rejects with an \<^verbatim>\<open>AbortError\<close>.
\<close>

definition is_abort :: "stream_step \<Rightarrow> bool" where
  "is_abort s =
     (case s of
        CancellationRequested \<Rightarrow> True
      | ReadThrows (ThrownError e) \<Rightarrow> err_name e = ''AbortError''
      | _ \<Rightarrow> False)"

text \<open>
  No error occurs in a session: \<^verbatim>\<open>fetch\<close> resolves or is aborted, the response is \<^verbatim>\<open>ok\<close> and
  has a body (or the reading of the text of a failed response is aborted), and no read of
  the body rejects with anything but an \<^verbatim>\<open>AbortError\<close>.
\<close>

definition is_abort_error :: "thrown \<Rightarrow> bool" where
  "is_abort_error t =
     (case t of ThrownError e \<Rightarrow> err_name e = ''AbortError'' | ThrownOther s \<Rightarrow> False)"

definition no_read_error :: "stream_step \<Rightarrow> bool" where
  "no_read_error s = (case s of ReadThrows t \<Rightarrow> is_abort_error t | _ \<Rightarrow> True)"

definition no_error_occurs :: "fetch_outcome \<Rightarrow> bool" where
  "no_error_occurs outcome =
     (case outcome of
        FetchRejects t \<Rightarrow> is_abort_error t
      | FetchResolves r \<Rightarrow>
          if \<not> resp_ok r
          then (case resp_text r of Inl t \<Rightarrow> is_abort_error t | Inr errorText \<Rightarrow> False)
          else (case resp_body r of
                  None \<Rightarrow> False
                | Some steps \<Rightarrow> list_all no_read_error steps))"

text \<open>A successful response whose reader goes through the given steps.\<close>

definition with_body :: "response \<Rightarrow> stream_step list \<Rightarrow> fetch_outcome" where
  "with_body r steps = FetchResolves (r\<lparr>resp_ok := True, resp_body := Some steps\<rparr>)"

text \<open>
  The stream cut into one frame per chunk: every chunk ends with its line feed, the last
  one apart when the stream does not end with a line feed.
\<close>

fun frame_chunks :: "bytes \<Rightarrow> bytes list" where
  "frame_chunks [] = []"
| "frame_chunks (b # bs) =
     (if b = CHR 0x0A then [b] # frame_chunks bs
      else (case frame_chunks bs of [] \<Rightarrow> [b] # [] | f # fs \<Rightarrow> (b # f) # fs))"

subsection \<open>What a tool call should accumulate\<close>








subsection \<open>The cache before the trim, and the parts of a turn\<close>

text \<open>The cache of a session at completion, after lines 143-146 and before lines 148-153.\<close>

definition untrimmed_cache :: "bool \<Rightarrow> string \<Rightarrow> callback list \<Rightarrow> reasoning_cache" where
  "untrimmed_cache isReasoner responseMessageId cbs =
     reasoningCache (store_response_reasoning isReasoner responseMessageId
       (provideLanguageModelChatResponse isReasoner responseMessageId [] cbs))"

text \<open>\<^verbatim>\<open>reasoningCache.set(k, v)\<close> for each of the entries in turn.\<close>

definition insert_all :: "(string \<times> string) list \<Rightarrow> reasoning_cache \<Rightarrow> reasoning_cache" where
  "insert_all kvs cache = fold (\<lambda>kv. Map_set (fst kv) (snd kv)) kvs cache"

definition text_of_part :: "part \<Rightarrow> string" where
  "text_of_part pt = (case pt of TextPart v \<Rightarrow> v | _ \<Rightarrow> [])"

definition call_of_part :: "(json \<Rightarrow> string) \<Rightarrow> part \<Rightarrow> DeepSeekToolCall list" where
  "call_of_part stringify pt =
     (case pt of
        ToolCallPart callId nm input \<Rightarrow>
          [\<lparr>tc_id = callId, fn_name = nm, fn_arguments = stringify input\<rparr>]
      | _ \<Rightarrow> [])"

definition result_of_part :: "(item list \<Rightarrow> string) \<Rightarrow> part \<Rightarrow> (string \<times> string) list" where
  "result_of_part stringify_items pt =
     (case pt of
        ToolResultPart callId items \<Rightarrow>
          [(callId, if toolContent items \<noteq> [] then toolContent items else stringify_items items)]
      | _ \<Rightarrow> [])"

text \<open>The \<^verbatim>\<open>tool\<close> message of a tool-result part, and the \<^verbatim>\<open>user\<close> message of a text.\<close>

definition tool_message :: "(item list \<Rightarrow> string) \<Rightarrow> part \<Rightarrow> DeepSeekMessage list" where
  "tool_message stringify_items pt =
     (case pt of
        ToolResultPart callId items \<Rightarrow>
          [\<lparr>role = ''tool'',
            content = (if toolContent items \<noteq> [] then toolContent items else stringify_items items),
            tool_call_id = Some callId, tool_calls = None, reasoning_content = None\<rparr>]
      | _ \<Rightarrow> [])"

definition user_message :: "string \<Rightarrow> DeepSeekMessage" where
  "user_message t =
     \<lparr>role = ''user'', content = t, tool_call_id = None, tool_calls = None,
      reasoning_content = None\<rparr>"

section \<open>Example inputs\<close>

text \<open>
  A platform for the examples: the decoder passes every byte on as one character, and
  \<^verbatim>\<open>JSON.parse\<close> is tabulated on the payloads that the examples use.
\<close>

definition plain_delta :: delta where
  "plain_delta = \<lparr>delta_content = None, delta_reasoning_content = None, delta_tool_calls = None\<rparr>"

definition one_choice :: "delta \<Rightarrow> string option \<Rightarrow> DeepSeekStreamChunk" where
  "one_choice d fr = \<lparr>choices = [\<lparr>choice_delta = d, finish_reason = fr\<rparr>]\<rparr>"

definition fragment ::
  "int \<Rightarrow> string option \<Rightarrow> string option \<Rightarrow> string option \<Rightarrow> tool_call_fragment" where
  "fragment i ident nm args =
     \<lparr>frag_index = i, frag_id = ident,
      frag_function = Some \<lparr>frag_name = nm, frag_arguments = args\<rparr>\<rparr>"

definition example_payloads :: "(string \<times> DeepSeekStreamChunk) list" where
  \<open>example_payloads =
    [(''{"choices":[{"index":0,"delta":{"content":"hi"},"finish_reason":null}]}'',
      one_choice (plain_delta\<lparr>delta_content := Some ''hi''\<rparr>) None),
     (''{"choices":[{"index":0,"delta":{"content":""},"finish_reason":null}]}'',
      one_choice (plain_delta\<lparr>delta_content := Some []\<rparr>) None),
     (''{"choices":[{"index":0,"delta":{"reasoning_content":"hm"},"finish_reason":null}]}'',
      one_choice (plain_delta\<lparr>delta_reasoning_content := Some ''hm''\<rparr>) None),
     (''{"choices":[{"index":0,"delta":{"tool_calls":[{"index":0,"id":"call_a","function":{"name":"get_"}}]},"finish_reason":null}]}'',
      one_choice (plain_delta\<lparr>delta_tool_calls :=
        Some [fragment 0 (Some ''call_a'') (Some ''get_'') None]\<rparr>) None),
     (''{"choices":[{"index":0,"delta":{"tool_calls":[{"index":0,"function":{"name":"time","arguments":"[1,"}}]},"finish_reason":null}]}'',
      one_choice (plain_delta\<lparr>delta_tool_calls :=
        Some [fragment 0 None (Some ''time'') (Some ''[1,'')]\<rparr>) None),
     (''{"choices":[{"index":0,"delta":{"tool_calls":[{"index":0,"function":{"arguments":"2]"}}]},"finish_reason":null}]}'',
      one_choice (plain_delta\<lparr>delta_tool_calls :=
        Some [fragment 0 None None (Some ''2]'')]\<rparr>) None),
     (''{"choices":[{"index":0,"delta":{"tool_calls":[{"index":1,"id":"call_b","function":{"name":"ec"}}]},"finish_reason":null}]}'',
      one_choice (plain_delta\<lparr>delta_tool_calls :=
        Some [fragment 1 (Some ''call_b'') (Some ''ec'') None]\<rparr>) None),
     (''{"choices":[{"index":0,"delta":{"tool_calls":[{"index":1,"function":{"name":"ho","arguments":"[3"}}]},"finish_reason":null}]}'',
      one_choice (plain_delta\<lparr>delta_tool_calls :=
        Some [fragment 1 None (Some ''ho'') (Some ''[3'')]\<rparr>) None),
     (''{"choices":[{"index":0,"delta":{"tool_calls":[{"index":1,"function":{"arguments":"]"}}]},"finish_reason":null}]}'',
      one_choice (plain_delta\<lparr>delta_tool_calls :=
        Some [fragment 1 None None (Some '']'')]\<rparr>) None),
     (''{"choices":[{"index":0,"delta":{},"finish_reason":"tool_calls"}]}'',
      one_choice plain_delta (Some ''tool_calls''))]\<close>

definition example_error_bodies :: "(string \<times> json) list" where
  \<open>example_error_bodies =
    [(''{"error":{"message":"bad key"}}'',
      JObj [(''error'', JObj [(''message'', JStr ''bad key'')])]),
     (''{"message":"slow down"}'',
      JObj [(''message'', JStr ''slow down'')]),
     (''{"error":{"message":{"toString":"x"}}}'',
      JObj [(''error'', JObj [(''message'', JObj [(''toString'', JStr ''x'')])])])]\<close>

definition example_platform :: "unit platform" where
  "example_platform =
     \<lparr>parse_chunk = map_of example_payloads,
      parse_json = map_of example_error_bodies,
      decoder_step = (\<lambda>s b. (s, [b])),
      decoder_init = (),
      type_error_message = ''Cannot convert object to primitive value''\<rparr>"


definition frame_text :: "nat \<Rightarrow> string" where
  "frame_text n = ''data: '' @ fst (example_payloads ! n)"

definition data_line :: "nat \<Rightarrow> bytes" where
  "data_line n = frame_text n @ [CHR 0x0A]"

definition done_line :: bytes where
  "done_line = ''data: [DONE]'' @ [CHR 0x0A]"

definition ok_response :: response where
  "ok_response = \<lparr>resp_ok = True, resp_status = 200, resp_text = Inr [], resp_body = None\<rparr>"

definition failed_response :: "16 word \<Rightarrow> string \<Rightarrow> response" where
  "failed_response status body =
     \<lparr>resp_ok = False, resp_status = status, resp_text = Inr body, resp_body = None\<rparr>"

text \<open>Cache entries with numbers as keys, and the callbacks of a session that makes them.\<close>

definition numbered_entries :: "nat \<Rightarrow> nat \<Rightarrow> (string \<times> string) list" where
  "numbered_entries i j = map (\<lambda>n. (show_nat n, ''r'')) [i..<j]"

definition numbered_calls :: "nat \<Rightarrow> callback list" where
  "numbered_calls j =
     concat (map (\<lambda>n. [OnReasoningContent ''r'',
                        OnToolCall \<lparr>tc_id = show_nat n, fn_name = ''f'', fn_arguments = ''{}''\<rparr>])
               [0..<j])"

section \<open>Frames do not depend on the chunks\<close>

lemma concat_frame_chunks: "concat (frame_chunks bs) = bs"
  by (induction bs) (auto split: list.splits)

lemma split_nl_not_Nil [simp]: "split_nl s \<noteq> []"
  by (induction s) (auto split: list.splits)

text \<open>
  Splitting a text that arrives in two pieces: the complete lines of the first piece,
  then the split of its unfinished last line followed by the second piece.
\<close>

lemma split_nl_append:
  "split_nl (x @ y) = butlast (split_nl x) @ split_nl (last (split_nl x) @ y)"
proof (induction x)
  case Nil
  show ?case by simp
next
  case (Cons c x)
  show ?case
  proof (cases "split_nl x")
    case Nil
    then show ?thesis using split_nl_not_Nil [of x] by simp
  next
    case (Cons a as)
    then show ?thesis using Cons.IH by (cases as) auto
  qed
qed

lemma process_lines_append:
  "process_lines parse cb (xs @ ys) p =
     (case process_lines parse cb xs p of
        (e, p', r) \<Rightarrow>
          if r then (e, p', True)
          else (case process_lines parse cb ys p' of (e2, p'', r2) \<Rightarrow> (e @ e2, p'', r2)))"
  by (induction xs arbitrary: p) (auto split: prod.splits bool.splits)

lemma decode_append:
  "decode d s (a @ b) =
     (case decode d s a of (s1, t1) \<Rightarrow> (case decode d s1 b of (s2, t2) \<Rightarrow> (s2, t1 @ t2)))"
  by (induction a arbitrary: s) (auto split: prod.splits)

text \<open>Two chunks read one after the other are read as their concatenation is.\<close>

lemma read_loop_merge:
  "read_loop parse cb d (Chunk a # Chunk b # rest) ds buf p =
   read_loop parse cb d (Chunk (a @ b) # rest) ds buf p"
proof -
  obtain ds1 t1 where d1: "decode d ds a = (ds1, t1)" by (cases "decode d ds a")
  obtain ds2 t2 where d2: "decode d ds1 b = (ds2, t2)" by (cases "decode d ds1 b")
  have d12: "decode d ds (a @ b) = (ds2, t1 @ t2)"
    by (simp add: decode_append d1 d2)
  let ?l1 = "split_nl (buf @ t1)"
  let ?l2 = "split_nl (last ?l1 @ t2)"
  have sp: "split_nl (buf @ t1 @ t2) = butlast ?l1 @ ?l2"
    using split_nl_append [of "buf @ t1" t2] by simp
  have bl: "butlast (butlast ?l1 @ ?l2) = butlast ?l1 @ butlast ?l2"
    by (simp add: butlast_append)
  have la: "last (butlast ?l1 @ ?l2) = last ?l2"
    by simp
  obtain e1 p1 r1 where pl1: "process_lines parse cb (butlast ?l1) p = (e1, p1, r1)"
    by (cases "process_lines parse cb (butlast ?l1) p")
  obtain e2 p2 r2 where pl2: "process_lines parse cb (butlast ?l2) p1 = (e2, p2, r2)"
    by (cases "process_lines parse cb (butlast ?l2) p1")
  show ?thesis
    by (simp add: d1 d2 d12 sp bl la process_lines_append pl1 pl2 Let_def del: split_nl.simps)
qed

lemma read_loop_cong_tail:
  assumes "\<And>ds buf p. read_loop parse cb d xs ds buf p = read_loop parse cb d ys ds buf p"
  shows "read_loop parse cb d (Chunk a # xs) ds buf p = read_loop parse cb d (Chunk a # ys) ds buf p"
  by (simp add: assms Let_def split: prod.splits)

lemma read_loop_chunks:
  "cs \<noteq> [] \<Longrightarrow>
   read_loop parse cb d (map Chunk cs @ rest) ds buf p =
   read_loop parse cb d (Chunk (concat cs) # rest) ds buf p"
proof (induction cs arbitrary: ds buf p)
  case Nil
  then show ?case by simp
next
  case (Cons c cs)
  show ?case
  proof (cases "cs = []")
    case True
    then show ?thesis by simp
  next
    case False
    have "read_loop parse cb d (Chunk c # (map Chunk cs @ rest)) ds buf p =
          read_loop parse cb d (Chunk c # (Chunk (concat cs) # rest)) ds buf p"
      by (rule read_loop_cong_tail) (rule Cons.IH [OF False])
    then show ?thesis by (simp add: read_loop_merge del: read_loop.simps)
  qed
qed

text \<open>With the empty buffer of line 127, also for no chunk at all.\<close>

lemma read_loop_concat:
  "read_loop parse cb d (map Chunk cs @ rest) ds [] p =
   read_loop parse cb d (Chunk (concat cs) # rest) ds [] p"
  by (cases "cs = []") (simp_all add: read_loop_chunks del: read_loop.simps, simp)

text \<open>
  Claim C1. For every stream and every way of cutting it into raw byte chunks, also inside
  the \<^verbatim>\<open>data: [DONE]\<close> sentinel and inside a frame, \<^verbatim>\<open>streamChatCompletion\<close> invokes the same
  callbacks with the same arguments in the same order: two lists of chunks with the same
  concatenation give the same trace, and so does the stream cut into one frame per chunk.
  What follows the chunks (the end of the stream, a cancellation, a failing read) is
  arbitrary.
\<close>

theorem chunk_split_equivalence:
  "(concat cs = concat cs' \<longrightarrow>
      streamChatCompletion P cb (with_body r (map Chunk cs @ rest)) =
      streamChatCompletion P cb (with_body r (map Chunk cs' @ rest))) \<and>
   streamChatCompletion P cb (with_body r (map Chunk cs @ rest)) =
   streamChatCompletion P cb (with_body r (map Chunk (frame_chunks (concat cs)) @ rest))"
  by (simp add: streamChatCompletion_def with_body_def read_loop_concat concat_frame_chunks
        del: read_loop.simps)

text \<open>
  A content frame and the sentinel, cut inside the frame and inside the sentinel, against
  one frame per chunk.
\<close>

theorem chunk_split_equivalence_witness:
  "concat [take 20 (data_line 0), drop 20 (data_line 0) @ take 9 done_line, drop 9 done_line] =
     concat [data_line 0, done_line] \<and>
   streamChatCompletion example_platform True
     (with_body ok_response
        (map Chunk [take 20 (data_line 0), drop 20 (data_line 0) @ take 9 done_line,
                    drop 9 done_line] @ [])) =
   streamChatCompletion example_platform True
     (with_body ok_response (map Chunk [data_line 0, done_line] @ [])) \<and>
   streamChatCompletion example_platform True
     (with_body ok_response (map Chunk [data_line 0, done_line] @ [])) =
   [OnContent ''hi'', OnDone]"
proof -
  have h: "concat [take 20 (data_line 0), drop 20 (data_line 0) @ take 9 done_line,
                   drop 9 done_line] = concat [data_line 0, done_line]"
    by simp
  have e: "streamChatCompletion example_platform True
     (with_body ok_response (map Chunk [data_line 0, done_line] @ [])) =
     [OnContent ''hi'', OnDone]"
    by code_simp
  from h e
    chunk_split_equivalence
      [of "[take 20 (data_line 0), drop 20 (data_line 0) @ take 9 done_line, drop 9 done_line]"
          "[data_line 0, done_line]" example_platform True ok_response "[]"]
  show ?thesis by blast
qed

section \<open>One completion or error callback\<close>

lemma quiet_simps [simp]:
  "quiet []"
  "quiet (xs @ ys) \<longleftrightarrow> quiet xs \<and> quiet ys"
  "quiet (OnContent s # xs) \<longleftrightarrow> quiet xs"
  "quiet (OnReasoningContent s # xs) \<longleftrightarrow> quiet xs"
  "quiet (OnToolCall tc # xs) \<longleftrightarrow> quiet xs"
  "\<not> quiet (OnDone # xs)"
  "\<not> quiet (OnError e # xs)"
  by (auto simp: quiet_def is_done_def is_error_def)

lemma quiet_emit_text [simp]:
  "quiet (emit_text OnContent t)" "quiet (emit_text OnReasoningContent t)"
  by (auto simp: emit_text_def split: option.splits)

lemma quiet_drain [simp]: "quiet (drain p)"
  by (induction p) (auto simp: drain_def Map_values_def)

lemma quiet_handle_chunk: "handle_chunk cb c p = (evs, p') \<Longrightarrow> quiet evs"
  by (auto simp: handle_chunk_def Let_def split: list.splits if_splits)

text \<open>A line either makes the function return, after the drain and \<^verbatim>\<open>onDone\<close>, or is quiet.\<close>

lemma process_line_cases:
  assumes "process_line parse cb l p = (evs, p', r)"
  shows "(r \<longrightarrow> evs = drain p @ [OnDone]) \<and> (\<not> r \<longrightarrow> quiet evs)"
  using assms
  by (auto simp: process_line_def Let_def split: if_splits option.splits prod.splits
           dest: quiet_handle_chunk)

lemma process_lines_cases:
  assumes "process_lines parse cb ls p = (evs, p', r)"
  shows "(r \<longrightarrow> (\<exists>pre. evs = pre @ [OnDone] \<and> quiet pre)) \<and> (\<not> r \<longrightarrow> quiet evs)"
  using assms
proof (induction ls arbitrary: p evs p' r)
  case Nil
  then show ?case by simp
next
  case (Cons l ls)
  obtain e1 p1 r1 where l1: "process_line parse cb l p = (e1, p1, r1)"
    by (cases "process_line parse cb l p")
  note c1 = process_line_cases [OF l1]
  show ?case
  proof (cases r1)
    case True
    with Cons.prems l1 c1 show ?thesis by auto
  next
    case False
    obtain e2 p2 r2 where l2: "process_lines parse cb ls p1 = (e2, p2, r2)"
      by (cases "process_lines parse cb ls p1")
    note c2 = Cons.IH [OF l2]
    from Cons.prems l1 l2 False have ev: "evs = e1 @ e2" and rr: "r = r2" by auto
    from c1 False have q1: "quiet e1" by simp
    show ?thesis
    proof (cases r2)
      case True
      with c2 obtain pre where "e2 = pre @ [OnDone]" "quiet pre" by auto
      with q1 ev rr True show ?thesis by (auto intro: exI [of _ "e1 @ pre"])
    next
      case False
      with c2 q1 ev rr show ?thesis by simp
    qed
  qed
qed

lemma settles_once_snoc_done: "quiet pre \<Longrightarrow> settles_once (pre @ [OnDone])"
  by (simp add: settles_once_def quiet_def is_done_def is_error_def)

lemma settles_once_snoc_error: "quiet pre \<Longrightarrow> settles_once (pre @ [OnError e])"
  by (simp add: settles_once_def quiet_def is_done_def is_error_def)

lemma settles_once_prepend: "quiet pre \<Longrightarrow> settles_once tr \<Longrightarrow> settles_once (pre @ tr)"
  by (auto simp: settles_once_def quiet_def)

lemma settles_once_catch_block: "settles_once (catch_block t)"
  using settles_once_snoc_done [of "[]"] settles_once_snoc_error [of "[]"]
  by (auto simp: catch_block_def split: thrown.splits)

lemma settles_once_read_loop: "settles_once (read_loop parse cb d steps ds buf p)"
proof (induction steps arbitrary: ds buf p)
  case Nil
  show ?case using settles_once_snoc_done [of "[]"] by simp
next
  case (Cons s steps)
  show ?case
  proof (cases s)
    case CancellationRequested
    then show ?thesis using settles_once_snoc_done [of "[]"] by simp
  next
    case (ReadThrows t)
    then show ?thesis by (simp add: settles_once_catch_block)
  next
    case (Chunk v)
    obtain ds' tx where d: "decode d ds v = (ds', tx)" by (cases "decode d ds v")
    obtain evs p' r where pl:
      "process_lines parse cb (butlast (split_nl (buf @ tx))) p = (evs, p', r)"
      by (cases "process_lines parse cb (butlast (split_nl (buf @ tx))) p")
    note c = process_lines_cases [OF pl]
    show ?thesis
    proof (cases r)
      case True
      with c obtain pre where "evs = pre @ [OnDone]" "quiet pre" by auto
      with Chunk d pl True show ?thesis by (simp add: settles_once_snoc_done)
    next
      case False
      with c have "quiet evs" by simp
      with Chunk d pl False Cons.IH show ?thesis by (simp add: settles_once_prepend)
    qed
  qed
qed

lemma settles_once_session: "settles_once (streamChatCompletion P cb outcome)"
  by (auto simp: streamChatCompletion_def settles_once_catch_block settles_once_read_loop
           split: fetch_outcome.splits sum.splits option.splits)

lemma catch_block_abort: "is_abort_error t \<Longrightarrow> catch_block t = [OnDone]"
  by (cases t) (auto simp: is_abort_error_def catch_block_def)

text \<open>When no read fails, the loop ends with the completion callback, after quiet callbacks.\<close>

lemma read_loop_no_error:
  assumes "list_all no_read_error steps"
  shows "\<exists>pre. read_loop parse cb d steps ds buf p = pre @ [OnDone] \<and> quiet pre"
  using assms
proof (induction steps arbitrary: ds buf p)
  case Nil
  show ?case by simp
next
  case (Cons s steps)
  show ?case
  proof (cases s)
    case CancellationRequested
    then show ?thesis by simp
  next
    case (ReadThrows t)
    with Cons.prems have "is_abort_error t" by (simp add: no_read_error_def)
    with ReadThrows show ?thesis by (simp add: catch_block_abort)
  next
    case (Chunk v)
    obtain ds' tx where d: "decode d ds v = (ds', tx)" by (cases "decode d ds v")
    obtain evs p' r where pl:
      "process_lines parse cb (butlast (split_nl (buf @ tx))) p = (evs, p', r)"
      by (cases "process_lines parse cb (butlast (split_nl (buf @ tx))) p")
    note c = process_lines_cases [OF pl]
    show ?thesis
    proof (cases r)
      case True
      with c Chunk d pl show ?thesis by simp
    next
      case False
      with c have q: "quiet evs" by simp
      from Cons.prems have "list_all no_read_error steps" by simp
      from Cons.IH [OF this, of ds' "last (split_nl (buf @ tx))" p'] obtain pre where
        "read_loop parse cb d steps ds' (last (split_nl (buf @ tx))) p' = pre @ [OnDone]"
        "quiet pre" by blast
      with q Chunk d pl False show ?thesis by (auto intro: exI [of _ "evs @ pre"])
    qed
  qed
qed

lemma session_no_error:
  assumes "no_error_occurs outcome"
  shows "\<exists>pre. streamChatCompletion P cb outcome = pre @ [OnDone] \<and> quiet pre"
proof (cases outcome)
  case (FetchRejects t)
  with assms show ?thesis
    by (simp add: no_error_occurs_def streamChatCompletion_def catch_block_abort)
next
  case (FetchResolves r)
  show ?thesis
  proof (cases "resp_ok r")
    case False
    with assms FetchResolves show ?thesis
      by (auto simp: no_error_occurs_def streamChatCompletion_def catch_block_abort
               split: sum.splits)
  next
    case True
    with assms FetchResolves obtain steps where
      b: "resp_body r = Some steps" and n: "list_all no_read_error steps"
      by (auto simp: no_error_occurs_def split: option.splits)
    from read_loop_no_error [OF n] True FetchResolves b show ?thesis
      by (simp add: streamChatCompletion_def)
  qed
qed

text \<open>
  Claim C3. For every session (whatever \<^verbatim>\<open>fetch\<close>, the response and its reader do: any
  stream content, a failure, a cancellation), exactly one of the error callback and the
  completion callback is invoked, and it is the last callback. When no error occurs (no
  rejection other than an abort, an \<^verbatim>\<open>ok\<close> response with a body), the error callback is
  not invoked and the last callback is the completion callback. The callbacks themselves
  are taken to return normally.
\<close>

theorem one_terminal_callback:
  "length (filter is_done (streamChatCompletion P cb outcome)) +
     length (filter is_error (streamChatCompletion P cb outcome)) = 1 \<and>
   streamChatCompletion P cb outcome \<noteq> [] \<and>
   (is_done (last (streamChatCompletion P cb outcome)) \<or>
    is_error (last (streamChatCompletion P cb outcome))) \<and>
   (no_error_occurs outcome \<longrightarrow>
      last (streamChatCompletion P cb outcome) = OnDone \<and>
      filter is_error (streamChatCompletion P cb outcome) = [])"
proof -
  note s = settles_once_session [of P cb outcome]
  have "last (streamChatCompletion P cb outcome) = OnDone \<and>
      filter is_error (streamChatCompletion P cb outcome) = []"
    if ne: "no_error_occurs outcome"
  proof -
    from session_no_error [OF ne, of P cb] obtain pre where
      "streamChatCompletion P cb outcome = pre @ [OnDone]" "quiet pre" by blast
    then show ?thesis by (simp add: quiet_def is_error_def)
  qed
  with s show ?thesis by (simp add: settles_once_def)
qed

text \<open>A stream of a content frame and a tool-call frame that the server then closes.\<close>

theorem one_terminal_callback_witness:
  "no_error_occurs (with_body ok_response [Chunk (data_line 0), Chunk (data_line 3)]) \<and>
   filter is_error
     (streamChatCompletion example_platform True
        (with_body ok_response [Chunk (data_line 0), Chunk (data_line 3)])) = [] \<and>
   last (streamChatCompletion example_platform True
        (with_body ok_response [Chunk (data_line 0), Chunk (data_line 3)])) = OnDone \<and>
   length (filter is_done
     (streamChatCompletion example_platform True
        (with_body ok_response [Chunk (data_line 0), Chunk (data_line 3)]))) = 1"
proof -
  have h: "no_error_occurs (with_body ok_response [Chunk (data_line 0), Chunk (data_line 3)])"
    by (simp add: no_error_occurs_def with_body_def no_read_error_def)
  from h
    one_terminal_callback
      [of example_platform True "with_body ok_response [Chunk (data_line 0), Chunk (data_line 3)]"]
  show ?thesis by auto
qed

section \<open>Cancellation\<close>

lemma read_loop_abort_head:
  "is_abort s \<Longrightarrow> read_loop parse cb d (s # rest) ds buf p = [OnDone]"
  by (cases s) (auto simp: is_abort_def catch_block_def split: thrown.splits)

lemma read_loop_cancelled:
  assumes "is_abort s"
  shows "\<exists>pre. read_loop parse cb d (map Chunk cs @ s # rest) ds buf p = pre @ [OnDone] \<and> quiet pre"
proof (induction cs arbitrary: ds buf p)
  case Nil
  show ?case by (simp add: read_loop_abort_head [OF assms])
next
  case (Cons c cs)
  obtain ds' tx where d: "decode d ds c = (ds', tx)" by (cases "decode d ds c")
  obtain evs p' r where pl:
    "process_lines parse cb (butlast (split_nl (buf @ tx))) p = (evs, p', r)"
    by (cases "process_lines parse cb (butlast (split_nl (buf @ tx))) p")
  note c = process_lines_cases [OF pl]
  show ?case
  proof (cases r)
    case True
    with c d pl show ?thesis by simp
  next
    case False
    with c have q: "quiet evs" by simp
    from Cons.IH [of ds' "last (split_nl (buf @ tx))" p'] obtain pre where
      "read_loop parse cb d (map Chunk cs @ s # rest) ds' (last (split_nl (buf @ tx))) p' =
         pre @ [OnDone]"
      "quiet pre" by blast
    with q d pl False show ?thesis by (auto intro: exI [of _ "evs @ pre"])
  qed
qed

text \<open>
  Claim C4. For every session that is cancelled mid-stream, after any number of chunks,
  whether the loop meets the cancellation at the check before the next read or as the
  abort-style error of the read in flight, \<^verbatim>\<open>streamChatCompletion\<close> ends with the completion
  callback, invoked once, and never invokes the error callback.
\<close>

theorem cancellation_completes:
  assumes "is_abort s"
  shows "last (streamChatCompletion P cb (with_body r (map Chunk cs @ s # rest))) = OnDone \<and>
         filter is_error (streamChatCompletion P cb (with_body r (map Chunk cs @ s # rest))) = [] \<and>
         length (filter is_done
           (streamChatCompletion P cb (with_body r (map Chunk cs @ s # rest)))) = 1"
proof -
  obtain pre where
    "streamChatCompletion P cb (with_body r (map Chunk cs @ s # rest)) = pre @ [OnDone]" "quiet pre"
    using read_loop_cancelled [OF assms]
    by (fastforce simp: streamChatCompletion_def with_body_def)
  then show ?thesis by (simp add: quiet_def is_done_def is_error_def)
qed

text \<open>A content frame, then the read in flight is aborted; more chunks would have followed.\<close>

theorem cancellation_completes_witness:
  "is_abort (ReadThrows (ThrownError (JsError ''AbortError'' ''aborted''))) \<and>
   last (streamChatCompletion example_platform True
     (with_body ok_response
        (map Chunk [data_line 0] @
           ReadThrows (ThrownError (JsError ''AbortError'' ''aborted'')) # [Chunk done_line]))) =
     OnDone \<and>
   filter is_error (streamChatCompletion example_platform True
     (with_body ok_response
        (map Chunk [data_line 0] @
           ReadThrows (ThrownError (JsError ''AbortError'' ''aborted'')) # [Chunk done_line]))) = []"
proof -
  have h: "is_abort (ReadThrows (ThrownError (JsError ''AbortError'' ''aborted'')))"
    by (simp add: is_abort_def)
  from h cancellation_completes [OF h, of example_platform True ok_response "[data_line 0]"
      "[Chunk done_line]"]
  show ?thesis by blast
qed

section \<open>Text fragments\<close>

lemma nonempty_emit_text:
  "x \<in> set (emit_text f t) \<Longrightarrow> \<exists>s. x = f s \<and> s \<noteq> []"
  by (auto simp: emit_text_def split: option.splits if_splits)

lemma nonempty_drain: "x \<in> set (drain p) \<Longrightarrow> nonempty_text x"
  by (auto simp: drain_def nonempty_text_def)

lemma nonempty_handle_chunk:
  "handle_chunk cb c p = (evs, p') \<Longrightarrow> x \<in> set evs \<Longrightarrow> nonempty_text x"
  by (auto simp: handle_chunk_def Let_def nonempty_text_def split: list.splits if_splits
           dest!: nonempty_emit_text nonempty_drain)

lemma nonempty_process_line:
  "process_line parse cb l p = (evs, p', r) \<Longrightarrow> x \<in> set evs \<Longrightarrow> nonempty_text x"
  by (auto simp: process_line_def Let_def nonempty_text_def [of OnDone]
           split: if_splits option.splits prod.splits
           intro: nonempty_drain dest: nonempty_handle_chunk)

lemma nonempty_process_lines:
  "process_lines parse cb ls p = (evs, p', r) \<Longrightarrow> \<forall>x\<in>set evs. nonempty_text x"
proof (induction ls arbitrary: p evs p' r)
  case Nil
  then show ?case by simp
next
  case (Cons l ls)
  obtain e1 p1 r1 where l1: "process_line parse cb l p = (e1, p1, r1)"
    by (cases "process_line parse cb l p")
  obtain e2 p2 r2 where l2: "process_lines parse cb ls p1 = (e2, p2, r2)"
    by (cases "process_lines parse cb ls p1")
  from nonempty_process_line [OF l1] have n1: "\<forall>x\<in>set e1. nonempty_text x" by blast
  from Cons.IH [OF l2] have n2: "\<forall>x\<in>set e2. nonempty_text x" .
  from Cons.prems l1 l2 have "evs = e1 \<or> evs = e1 @ e2" by (cases r1) auto
  with n1 n2 show ?case by auto
qed

lemma nonempty_catch_block: "\<forall>x\<in>set (catch_block t). nonempty_text x"
  by (auto simp: catch_block_def nonempty_text_def split: thrown.splits)

lemma nonempty_read_loop: "\<forall>x\<in>set (read_loop parse cb d steps ds buf p). nonempty_text x"
proof (induction steps arbitrary: ds buf p)
  case Nil
  show ?case by (simp add: nonempty_text_def)
next
  case (Cons s steps)
  show ?case
  proof (cases s)
    case CancellationRequested
    then show ?thesis by (simp add: nonempty_text_def)
  next
    case (ReadThrows t)
    then show ?thesis by (simp add: nonempty_catch_block)
  next
    case (Chunk v)
    obtain ds' tx where d: "decode d ds v = (ds', tx)" by (cases "decode d ds v")
    obtain evs p' r where pl:
      "process_lines parse cb (butlast (split_nl (buf @ tx))) p = (evs, p', r)"
      by (cases "process_lines parse cb (butlast (split_nl (buf @ tx))) p")
    from nonempty_process_lines [OF pl] Cons.IH [of ds' "last (split_nl (buf @ tx))" p']
    show ?thesis using Chunk d pl by auto
  qed
qed

lemma nonempty_session: "\<forall>x\<in>set (streamChatCompletion P cb outcome). nonempty_text x"
  by (auto simp: streamChatCompletion_def nonempty_catch_block nonempty_read_loop
           split: fetch_outcome.splits sum.splits option.splits)

text \<open>
  Claim C9. The content and reasoning callbacks are only ever invoked with non-empty
  strings: no session invokes either with the empty string, and a decoded payload whose
  \<^verbatim>\<open>content\<close> (or \<^verbatim>\<open>reasoning_content\<close>) is absent or empty invokes no content (or
  reasoning) callback at all.
\<close>

theorem callbacks_text_nonempty:
  "(OnContent s \<in> set (streamChatCompletion P cb outcome) \<longrightarrow> s \<noteq> []) \<and>
   (OnReasoningContent s \<in> set (streamChatCompletion P cb outcome) \<longrightarrow> s \<noteq> []) \<and>
   (delta_content (choice_delta c) \<in> {None, Some []} \<longrightarrow>
      OnContent s \<notin> set (fst (handle_chunk cb \<lparr>choices = c # cs\<rparr> p))) \<and>
   (delta_reasoning_content (choice_delta c) \<in> {None, Some []} \<longrightarrow>
      OnReasoningContent s \<notin> set (fst (handle_chunk cb \<lparr>choices = c # cs\<rparr> p)))"
proof -
  note all = nonempty_session [of P cb outcome]
  have c1: "OnContent s \<in> set (streamChatCompletion P cb outcome) \<longrightarrow> s \<noteq> []"
    using all by (auto simp: nonempty_text_def)
  have c2: "OnReasoningContent s \<in> set (streamChatCompletion P cb outcome) \<longrightarrow> s \<noteq> []"
    using all by (auto simp: nonempty_text_def)
  have d: "OnContent s \<notin> set (drain q)" "OnReasoningContent s \<notin> set (drain q)" for q
    by (auto simp: drain_def)
  have c3: "delta_content (choice_delta c) \<in> {None, Some []} \<longrightarrow>
      OnContent s \<notin> set (fst (handle_chunk cb \<lparr>choices = c # cs\<rparr> p))"
    by (auto simp: handle_chunk_def Let_def emit_text_def d split: option.splits)
  have c4: "delta_reasoning_content (choice_delta c) \<in> {None, Some []} \<longrightarrow>
      OnReasoningContent s \<notin> set (fst (handle_chunk cb \<lparr>choices = c # cs\<rparr> p))"
    by (auto simp: handle_chunk_def Let_def emit_text_def d split: option.splits)
  from c1 c2 c3 c4 show ?thesis by blast
qed

text \<open>
  A stream with the content \<^verbatim>\<open>hi\<close>, an empty content and the reasoning \<^verbatim>\<open>hm\<close>; and a payload
  with an empty content and no reasoning.
\<close>

theorem callbacks_text_nonempty_witness:
  "OnContent ''hi'' \<in> set (streamChatCompletion example_platform True
     (with_body ok_response (map Chunk [data_line 0, data_line 1, data_line 2, done_line]))) \<and>
   ''hi'' \<noteq> [] \<and>
   OnReasoningContent ''hm'' \<in> set (streamChatCompletion example_platform True
     (with_body ok_response (map Chunk [data_line 0, data_line 1, data_line 2, done_line]))) \<and>
   ''hm'' \<noteq> [] \<and>
   delta_content (choice_delta \<lparr>choice_delta = plain_delta\<lparr>delta_content := Some []\<rparr>,
       finish_reason = None\<rparr>) \<in> {None, Some []} \<and>
   delta_reasoning_content (choice_delta \<lparr>choice_delta = plain_delta\<lparr>delta_content := Some []\<rparr>,
       finish_reason = None\<rparr>) \<in> {None, Some []} \<and>
   OnContent ''hi'' \<notin> set (fst (handle_chunk True
     \<lparr>choices = \<lparr>choice_delta = plain_delta\<lparr>delta_content := Some []\<rparr>,
       finish_reason = None\<rparr> # []\<rparr> [])) \<and>
   OnReasoningContent ''hm'' \<notin> set (fst (handle_chunk True
     \<lparr>choices = \<lparr>choice_delta = plain_delta\<lparr>delta_content := Some []\<rparr>,
       finish_reason = None\<rparr> # []\<rparr> []))"
proof -
  have tr: "streamChatCompletion example_platform True
     (with_body ok_response (map Chunk [data_line 0, data_line 1, data_line 2, done_line])) =
     [OnContent ''hi'', OnReasoningContent ''hm'', OnDone]"
    by code_simp
  have h1: "OnContent ''hi'' \<in> set (streamChatCompletion example_platform True
     (with_body ok_response (map Chunk [data_line 0, data_line 1, data_line 2, done_line])))"
    unfolding tr by simp
  have h2: "OnReasoningContent ''hm'' \<in> set (streamChatCompletion example_platform True
     (with_body ok_response (map Chunk [data_line 0, data_line 1, data_line 2, done_line])))"
    unfolding tr by simp
  have h3: "delta_content (choice_delta \<lparr>choice_delta = plain_delta\<lparr>delta_content := Some []\<rparr>,
       finish_reason = None\<rparr>) \<in> {None, Some []}"
    by simp
  have h4: "delta_reasoning_content (choice_delta
       \<lparr>choice_delta = plain_delta\<lparr>delta_content := Some []\<rparr>,
       finish_reason = None\<rparr>) \<in> {None, Some []}"
    by (simp add: plain_delta_def)
  from h1 h2 h3 h4
    callbacks_text_nonempty [of "''hi''" example_platform True
      "with_body ok_response (map Chunk [data_line 0, data_line 1, data_line 2, done_line])"
      "\<lparr>choice_delta = plain_delta\<lparr>delta_content := Some []\<rparr>, finish_reason = None\<rparr>"
      "[]" "[]"]
    callbacks_text_nonempty [of "''hm''" example_platform True
      "with_body ok_response (map Chunk [data_line 0, data_line 1, data_line 2, done_line])"
      "\<lparr>choice_delta = plain_delta\<lparr>delta_content := Some []\<rparr>, finish_reason = None\<rparr>"
      "[]" "[]"]
  show ?thesis by blast
qed

section \<open>The accumulator of tool calls\<close>

text \<open>
  Claim C10. A tool-call fragment that arrives at an index with no pending entry and
  carries no id (or the empty id) is discarded entirely: the pending entries stay as they
  are, so none is created, and a payload is handled exactly as it is without the
  fragment, so its name and argument text reach no completed tool call.
\<close>

theorem fragment_without_id_discarded:
  assumes "map_of p (frag_index tc) = None"
      and "frag_id tc = None \<or> frag_id tc = Some []"
  shows "merge_fragment tc p = p \<and>
         handle_chunk cb
           \<lparr>choices = [\<lparr>choice_delta = d\<lparr>delta_tool_calls := Some (tc # tcs)\<rparr>,
                         finish_reason = fr\<rparr>]\<rparr> p =
         handle_chunk cb
           \<lparr>choices = [\<lparr>choice_delta = d\<lparr>delta_tool_calls := Some tcs\<rparr>,
                         finish_reason = fr\<rparr>]\<rparr> p"
proof -
  have m: "merge_fragment tc p = p"
    using assms by (auto simp: merge_fragment_def create_pending_def)
  then show ?thesis by (simp add: handle_chunk_def)
qed

text \<open>A fragment with a name and arguments and no id, at index 0, when nothing is pending.\<close>

theorem fragment_without_id_discarded_witness:
  "map_of ([] :: pending_map) (frag_index (fragment 0 None (Some ''time'') (Some ''[1,''))) = None \<and>
   frag_id (fragment 0 None (Some ''time'') (Some ''[1,'')) = None \<and>
   merge_fragment (fragment 0 None (Some ''time'') (Some ''[1,'')) [] = []"
proof -
  have h1: "map_of ([] :: pending_map)
      (frag_index (fragment 0 None (Some ''time'') (Some ''[1,''))) = None"
    by simp
  have h2: "frag_id (fragment 0 None (Some ''time'') (Some ''[1,'')) = None"
    by (simp add: fragment_def)
  from h2 have h2': "frag_id (fragment 0 None (Some ''time'') (Some ''[1,'')) = None \<or>
      frag_id (fragment 0 None (Some ''time'') (Some ''[1,'')) = Some []"
    by blast
  from h1 h2 fragment_without_id_discarded [OF h1 h2']
  show ?thesis by blast
qed

text \<open>
  Claim C2. Normal end of stream should deliver every still-pending tool call before the
  completion callback, whether the \<^verbatim>\<open>data: [DONE]\<close> frame arrives or the reader reports
  \<^verbatim>\<open>done\<close>. The code does so at the sentinel (lines 156-158) and not when the reader
  reports \<^verbatim>\<open>done\<close> (lines 139-141 and 221): after a frame that starts the tool call
  \<^verbatim>\<open>call_a\<close>, the closed stream gives the completion callback alone, and the same stream
  ended by the sentinel delivers the call first.
\<close>

theorem socket_close_skips_drain:
  "streamChatCompletion example_platform True
     (with_body ok_response [Chunk (data_line 3)]) = [OnDone] \<and>
   streamChatCompletion example_platform True
     (with_body ok_response [Chunk (data_line 3), Chunk done_line]) =
     [OnToolCall \<lparr>tc_id = ''call_a'', fn_name = ''get_'', fn_arguments = []\<rparr>, OnDone]"
  by code_simp


lemma Map_set_present: "k \<in> fst ` set m \<Longrightarrow> map fst (Map_set k v m) = map fst m"
  by (induction m) (auto simp: rev_image_eqI)

lemma Map_set_fresh: "k \<notin> fst ` set m \<Longrightarrow> Map_set k v m = m @ [(k, v)]"
  by (induction m) auto

lemma distinct_Map_set: "distinct (map fst m) \<Longrightarrow> distinct (map fst (Map_set k v m))"
  by (cases "k \<in> fst ` set m") (simp_all add: Map_set_present Map_set_fresh)
















section \<open>A failed request\<close>

text \<open>A failed response whose text is read makes the error callback, alone, with the value of line 118.\<close>

lemma failed_response_trace:
  assumes "\<not> resp_ok r" and "resp_text r = Inr t"
  shows "streamChatCompletion P cb (FetchResolves r) =
           [OnError (api_error P (resp_status r) (errorMessage (parse_json P) t))]"
proof -
  have n: "err_name (api_error P s v) \<noteq> ''AbortError''" for s v
    by (simp add: api_error_def split: option.splits)
  show ?thesis
    using assms by (simp add: streamChatCompletion_def catch_block_def n)
qed

lemma api_error_text:
  "api_error P s (JStr m) =
     JsError ''Error'' (''DeepSeek API error ('' @ show_nat (unat s) @ ''): '' @ m)"
  by (simp add: api_error_def)

lemma errorMessage_nested:
  assumes "parse t = Some (JObj kvs)" "map_of kvs ''error'' = Some (JObj es)"
    "map_of es ''message'' = Some v" "js_truthy (Some v)"
  shows "errorMessage parse t = v"
  using assms by (simp add: errorMessage_def optional_message_def get_prop_def js_or_def)

lemma errorMessage_top:
  assumes "parse t = Some (JObj kvs)"
    "\<not> js_truthy (optional_message (map_of kvs ''error''))"
    "map_of kvs ''message'' = Some v" "js_truthy (Some v)"
  shows "errorMessage parse t = v"
  using assms by (auto simp: errorMessage_def get_prop_def js_or_def split: option.splits)

lemma errorMessage_raw:
  assumes "parse t = None \<or>
     parse t = Some w \<and>
        \<not> js_truthy (optional_message (get_prop w ''error'')) \<and>
        \<not> js_truthy (get_prop w ''message'')"
  shows "errorMessage parse t = JStr t"
  using assms
  by (auto simp: errorMessage_def js_or_def split: option.splits json.splits)

text \<open>
  Claim C5, amended. For every response that is not \<^verbatim>\<open>ok\<close> and whose body text is read,
  the session invokes the error callback, and nothing else. The value reported is chosen
  from the body: its \<^verbatim>\<open>error.message\<close> field when that is truthy, else its top-level
  \<^verbatim>\<open>message\<close> field when that is truthy, else (no such field, or a body that is not JSON) the
  raw body text. When the chosen value is a string, the callback receives an error whose
  message is \<^verbatim>\<open>DeepSeek API error (<status>): \<close> followed by that string; so it does, with
  the text of the conversion, for every chosen value that can be converted to a string.
  When the chosen value cannot be converted (an object with a property \<^verbatim>\<open>toString\<close> of its
  own, or an array that holds one), the callback receives the \<^verbatim>\<open>TypeError\<close> of the
  conversion, without the prefix.
\<close>

theorem api_error_message:
  assumes "\<not> resp_ok r" and "resp_text r = Inr t"
  shows "streamChatCompletion P cb (FetchResolves r) =
           [OnError
              (case js_to_string (errorMessage (parse_json P) t) of
                 None \<Rightarrow> JsError ''TypeError'' (type_error_message P)
               | Some m \<Rightarrow>
                   JsError ''Error''
                     (''DeepSeek API error ('' @ show_nat (unat (resp_status r)) @ ''): '' @ m))] \<and>
         (parse_json P t = Some (JObj kvs) \<and> map_of kvs ''error'' = Some (JObj es) \<and>
            map_of es ''message'' = Some v \<and> js_truthy (Some v) \<longrightarrow>
            errorMessage (parse_json P) t = v) \<and>
         (parse_json P t = Some (JObj kvs) \<and>
            \<not> js_truthy (optional_message (map_of kvs ''error'')) \<and>
            map_of kvs ''message'' = Some v \<and> js_truthy (Some v) \<longrightarrow>
            errorMessage (parse_json P) t = v) \<and>
         (parse_json P t = None \<or>
            parse_json P t = Some w \<and>
            \<not> js_truthy (optional_message (get_prop w ''error'')) \<and>
            \<not> js_truthy (get_prop w ''message'') \<longrightarrow>
            errorMessage (parse_json P) t = JStr t) \<and>
         (errorMessage (parse_json P) t = JStr m \<longrightarrow>
            streamChatCompletion P cb (FetchResolves r) =
              [OnError (JsError ''Error''
                 (''DeepSeek API error ('' @ show_nat (unat (resp_status r)) @ ''): '' @ m))]) \<and>
         (errorMessage (parse_json P) t = JObj ps \<and> map_of ps ''toString'' \<noteq> None \<longrightarrow>
            streamChatCompletion P cb (FetchResolves r) =
              [OnError (JsError ''TypeError'' (type_error_message P))])"
proof -
  note tr = failed_response_trace [OF assms, of P cb]
  have 1: "streamChatCompletion P cb (FetchResolves r) =
           [OnError
              (case js_to_string (errorMessage (parse_json P) t) of
                 None \<Rightarrow> JsError ''TypeError'' (type_error_message P)
               | Some m \<Rightarrow>
                   JsError ''Error''
                     (''DeepSeek API error ('' @ show_nat (unat (resp_status r)) @ ''): '' @ m))]"
    unfolding tr by (simp add: api_error_def)
  have 5: "errorMessage (parse_json P) t = JStr m \<longrightarrow>
            streamChatCompletion P cb (FetchResolves r) =
              [OnError (JsError ''Error''
                 (''DeepSeek API error ('' @ show_nat (unat (resp_status r)) @ ''): '' @ m))]"
    unfolding tr by (simp add: api_error_def)
  have 6: "errorMessage (parse_json P) t = JObj ps \<and> map_of ps ''toString'' \<noteq> None \<longrightarrow>
            streamChatCompletion P cb (FetchResolves r) =
              [OnError (JsError ''TypeError'' (type_error_message P))]"
    unfolding tr by (auto simp: api_error_def)
  show ?thesis
    using 1 5 6 errorMessage_nested [of "parse_json P" t kvs es v]
      errorMessage_top [of "parse_json P" t kvs v] errorMessage_raw [of "parse_json P" t w]
    by blast
qed

text \<open>
  A 401 response with the body \<^verbatim>\<open>{"error":{"message":"bad key"}}\<close>, a 429 response with the
  body \<^verbatim>\<open>{"message":"slow down"}\<close>, a 502 response whose body is not JSON, and a 500 response
  with the body \<^verbatim>\<open>{"error":{"message":{"toString":"x"}}}\<close>.
\<close>

theorem api_error_message_witness:
  \<open>\<not> resp_ok (failed_response 401 ''{"error":{"message":"bad key"}}'') \<and>
   resp_text (failed_response 401 ''{"error":{"message":"bad key"}}'') =
     Inr ''{"error":{"message":"bad key"}}'' \<and>
   streamChatCompletion example_platform True
     (FetchResolves (failed_response 401 ''{"error":{"message":"bad key"}}'')) =
     [OnError (JsError ''Error'' ''DeepSeek API error (401): bad key'')] \<and>
   streamChatCompletion example_platform True
     (FetchResolves (failed_response 429 ''{"message":"slow down"}'')) =
     [OnError (JsError ''Error'' ''DeepSeek API error (429): slow down'')] \<and>
   streamChatCompletion example_platform True
     (FetchResolves (failed_response 502 ''Bad Gateway'')) =
     [OnError (JsError ''Error'' ''DeepSeek API error (502): Bad Gateway'')] \<and>
   streamChatCompletion example_platform True
     (FetchResolves (failed_response 500 ''{"error":{"message":{"toString":"x"}}}'')) =
     [OnError (JsError ''TypeError'' ''Cannot convert object to primitive value'')]\<close>
proof -
  let ?b1 = \<open>''{"error":{"message":"bad key"}}''\<close>
  let ?b2 = \<open>''{"message":"slow down"}''\<close>
  let ?b4 = \<open>''{"error":{"message":{"toString":"x"}}}''\<close>
  have ok: "\<not> resp_ok (failed_response s b)" for s b by (simp add: failed_response_def)
  have tx: "resp_text (failed_response s b) = Inr b" for s b by (simp add: failed_response_def)
  have st: "resp_status (failed_response s b) = s" for s b by (simp add: failed_response_def)
  have n1: "show_nat (unat (401 :: 16 word)) = ''401''" by code_simp
  have n2: "show_nat (unat (429 :: 16 word)) = ''429''" by code_simp
  have n3: "show_nat (unat (502 :: 16 word)) = ''502''" by code_simp
  have m: "type_error_message example_platform = ''Cannot convert object to primitive value''"
    by (simp add: example_platform_def)
  have p1: "parse_json example_platform ?b1 =
      Some (JObj [(''error'', JObj [(''message'', JStr ''bad key'')])])"
    by code_simp
  have p2: "parse_json example_platform ?b2 = Some (JObj [(''message'', JStr ''slow down'')])"
    by code_simp
  have p3: "parse_json example_platform ''Bad Gateway'' = None"
    by code_simp
  have p4: "parse_json example_platform ?b4 =
      Some (JObj [(''error'', JObj [(''message'', JObj [(''toString'', JStr ''x'')])])])"
    by code_simp
  note a1 = api_error_message [OF ok [of 401 ?b1] tx [of 401 ?b1],
      where P = example_platform and cb = True
        and kvs = "[(''error'', JObj [(''message'', JStr ''bad key'')])]"
        and es = "[(''message'', JStr ''bad key'')]"
        and v = "JStr ''bad key''" and m = "''bad key''"]
  have h1: "parse_json example_platform ?b1 =
        Some (JObj [(''error'', JObj [(''message'', JStr ''bad key'')])]) \<and>
      map_of [(''error'', JObj [(''message'', JStr ''bad key'')])] ''error'' =
        Some (JObj [(''message'', JStr ''bad key'')]) \<and>
      map_of [(''message'', JStr ''bad key'')] ''message'' = Some (JStr ''bad key'') \<and>
      js_truthy (Some (JStr ''bad key''))"
    using p1 by simp
  from a1 [THEN conjunct2, THEN conjunct1] h1
  have e1: "errorMessage (parse_json example_platform) ?b1 = JStr ''bad key''"
    by (rule mp)
  from a1 [THEN conjunct2, THEN conjunct2, THEN conjunct2, THEN conjunct2, THEN conjunct1] e1
  have "streamChatCompletion example_platform True (FetchResolves (failed_response 401 ?b1)) =
      [OnError (JsError ''Error''
         (''DeepSeek API error ('' @
          show_nat (unat (resp_status (failed_response 401 ?b1))) @ ''): '' @ ''bad key''))]"
    by (rule mp)
  then have r1: "streamChatCompletion example_platform True
      (FetchResolves (failed_response 401 ?b1)) =
      [OnError (JsError ''Error'' ''DeepSeek API error (401): bad key'')]"
    unfolding st n1 by simp
  note a2 = api_error_message [OF ok [of 429 ?b2] tx [of 429 ?b2],
      where P = example_platform and cb = True
        and kvs = "[(''message'', JStr ''slow down'')]"
        and v = "JStr ''slow down''" and m = "''slow down''"]
  have h2: "parse_json example_platform ?b2 = Some (JObj [(''message'', JStr ''slow down'')]) \<and>
      \<not> js_truthy (optional_message (map_of [(''message'', JStr ''slow down'')] ''error'')) \<and>
      map_of [(''message'', JStr ''slow down'')] ''message'' = Some (JStr ''slow down'') \<and>
      js_truthy (Some (JStr ''slow down''))"
    using p2 by (simp add: optional_message_def)
  from a2 [THEN conjunct2, THEN conjunct2, THEN conjunct1] h2
  have e2: "errorMessage (parse_json example_platform) ?b2 = JStr ''slow down''"
    by (rule mp)
  from a2 [THEN conjunct2, THEN conjunct2, THEN conjunct2, THEN conjunct2, THEN conjunct1] e2
  have "streamChatCompletion example_platform True (FetchResolves (failed_response 429 ?b2)) =
      [OnError (JsError ''Error''
         (''DeepSeek API error ('' @
          show_nat (unat (resp_status (failed_response 429 ?b2))) @ ''): '' @ ''slow down''))]"
    by (rule mp)
  then have r2: "streamChatCompletion example_platform True
      (FetchResolves (failed_response 429 ?b2)) =
      [OnError (JsError ''Error'' ''DeepSeek API error (429): slow down'')]"
    unfolding st n2 by simp
  note a3 = api_error_message [OF ok [of 502 "''Bad Gateway''"] tx [of 502 "''Bad Gateway''"],
      where P = example_platform and cb = True and w = JNull and m = "''Bad Gateway''"]
  have h3: "parse_json example_platform ''Bad Gateway'' = None \<or>
      parse_json example_platform ''Bad Gateway'' = Some JNull \<and>
      \<not> js_truthy (optional_message (get_prop JNull ''error'')) \<and>
      \<not> js_truthy (get_prop JNull ''message'')"
    using p3 by simp
  from a3 [THEN conjunct2, THEN conjunct2, THEN conjunct2, THEN conjunct1] h3
  have e3: "errorMessage (parse_json example_platform) ''Bad Gateway'' = JStr ''Bad Gateway''"
    by (rule mp)
  from a3 [THEN conjunct2, THEN conjunct2, THEN conjunct2, THEN conjunct2, THEN conjunct1] e3
  have "streamChatCompletion example_platform True
      (FetchResolves (failed_response 502 ''Bad Gateway'')) =
      [OnError (JsError ''Error''
         (''DeepSeek API error ('' @
          show_nat (unat (resp_status (failed_response 502 ''Bad Gateway''))) @ ''): '' @
          ''Bad Gateway''))]"
    by (rule mp)
  then have r3: "streamChatCompletion example_platform True
      (FetchResolves (failed_response 502 ''Bad Gateway'')) =
      [OnError (JsError ''Error'' ''DeepSeek API error (502): Bad Gateway'')]"
    unfolding st n3 by simp
  note a4 = api_error_message [OF ok [of 500 ?b4] tx [of 500 ?b4],
      where P = example_platform and cb = True
        and kvs = "[(''error'', JObj [(''message'', JObj [(''toString'', JStr ''x'')])])]"
        and es = "[(''message'', JObj [(''toString'', JStr ''x'')])]"
        and v = "JObj [(''toString'', JStr ''x'')]"
        and ps = "[(''toString'', JStr ''x'')]"]
  have h4: "parse_json example_platform ?b4 =
        Some (JObj [(''error'', JObj [(''message'', JObj [(''toString'', JStr ''x'')])])]) \<and>
      map_of [(''error'', JObj [(''message'', JObj [(''toString'', JStr ''x'')])])] ''error'' =
        Some (JObj [(''message'', JObj [(''toString'', JStr ''x'')])]) \<and>
      map_of [(''message'', JObj [(''toString'', JStr ''x'')])] ''message'' =
        Some (JObj [(''toString'', JStr ''x'')]) \<and>
      js_truthy (Some (JObj [(''toString'', JStr ''x'')]))"
    using p4 by simp
  from a4 [THEN conjunct2, THEN conjunct1] h4
  have e4: "errorMessage (parse_json example_platform) ?b4 = JObj [(''toString'', JStr ''x'')]"
    by (rule mp)
  have k4: "map_of [(''toString'', JStr ''x'')] ''toString'' \<noteq> None" by simp
  from e4 k4 have h4': "errorMessage (parse_json example_platform) ?b4 =
      JObj [(''toString'', JStr ''x'')] \<and>
      map_of [(''toString'', JStr ''x'')] ''toString'' \<noteq> None" ..
  from a4 [THEN conjunct2, THEN conjunct2, THEN conjunct2, THEN conjunct2, THEN conjunct2] h4'
  have "streamChatCompletion example_platform True (FetchResolves (failed_response 500 ?b4)) =
      [OnError (JsError ''TypeError'' (type_error_message example_platform))]"
    by (rule mp)
  then have r4: "streamChatCompletion example_platform True
      (FetchResolves (failed_response 500 ?b4)) =
      [OnError (JsError ''TypeError'' ''Cannot convert object to primitive value'')]"
    unfolding m .
  from ok [of 401 ?b1] tx [of 401 ?b1] r1 r2 r3 r4 show ?thesis by blast
qed

text \<open>
  The 401 response with the body \<^verbatim>\<open>{"error":{"message":"bad key"}}\<close>: the text that the
  error callback receives is not \<^verbatim>\<open>bad key\<close> but \<^verbatim>\<open>DeepSeek API error (401): bad key\<close>.
\<close>

theorem api_error_text_counterexample:
  \<open>streamChatCompletion example_platform True
     (FetchResolves (failed_response 401 ''{"error":{"message":"bad key"}}'')) =
     [OnError (JsError ''Error'' ''DeepSeek API error (401): bad key'')] \<and>
   ''DeepSeek API error (401): bad key'' \<noteq> ''bad key''\<close>
  by code_simp

section \<open>The reasoning cache\<close>

lemma Map_delete_fresh: "k \<notin> fst ` set m \<Longrightarrow> Map_delete k m = m"
  by (induction m) (auto simp: Map_delete_def)

lemma fold_Map_delete_prefix:
  "distinct (map fst (xs @ ys)) \<Longrightarrow> fold Map_delete (map fst xs) (xs @ ys) = ys"
proof (induction xs)
  case Nil
  show ?case by simp
next
  case (Cons x xs)
  from Cons.prems have fresh: "fst x \<notin> fst ` set (xs @ ys)" by auto
  have "Map_delete (fst x) (x # xs @ ys) = Map_delete (fst x) (xs @ ys)"
    by (simp add: Map_delete_def)
  also have "\<dots> = xs @ ys" using fresh by (rule Map_delete_fresh)
  finally show ?case using Cons by simp
qed

text \<open>On a map (distinct keys) the loop of lines 148-153 leaves the last 50 entries.\<close>

lemma trim_cache_drop:
  assumes "distinct (map fst c)"
  shows "trim_cache c = drop (length c - 50) c"
proof (cases "length c > 50")
  case False
  then show ?thesis by (simp add: trim_cache_def)
next
  case True
  let ?n = "length c - 50"
  have "fold Map_delete (map fst (take ?n c)) (take ?n c @ drop ?n c) = drop ?n c"
    by (rule fold_Map_delete_prefix) (use assms in simp)
  then have "fold Map_delete (take ?n (map fst c)) c = drop ?n c"
    by (simp add: take_map)
  with True show ?thesis by (simp add: trim_cache_def)
qed

lemma insert_all_fresh:
  "distinct (map fst (m @ kvs)) \<Longrightarrow> insert_all kvs m = m @ kvs"
proof (induction kvs arbitrary: m)
  case Nil
  show ?case by (simp add: insert_all_def)
next
  case (Cons kv kvs)
  from Cons.prems have "fst kv \<notin> fst ` set m" by auto
  then have "Map_set (fst kv) (snd kv) m = m @ [kv]" by (simp add: Map_set_fresh)
  moreover from Cons.prems have "distinct (map fst ((m @ [kv]) @ kvs))" by simp
  ultimately show ?case using Cons.IH [of "m @ [kv]"] by (simp add: insert_all_def)
qed

lemma distinct_trim_cache: "distinct (map fst c) \<Longrightarrow> distinct (map fst (trim_cache c))"
  by (simp add: trim_cache_drop flip: drop_map)

lemma distinct_handle_callback:
  "distinct (map fst (reasoningCache st)) \<Longrightarrow>
   distinct (map fst (reasoningCache (handle_callback r i cb st)))"
  by (cases cb)
     (auto simp: handle_callback_def onToolCall_def onDone_def store_response_reasoning_def
        Let_def intro: distinct_Map_set distinct_trim_cache)

lemma distinct_fold_handle_callback:
  "distinct (map fst (reasoningCache st)) \<Longrightarrow>
   distinct (map fst (reasoningCache (fold (handle_callback r i) cbs st)))"
  by (induction cbs arbitrary: st) (auto intro: distinct_handle_callback)

lemma distinct_untrimmed: "distinct (map fst (untrimmed_cache r i cbs))"
  by (auto simp: untrimmed_cache_def provideLanguageModelChatResponse_def
        store_response_reasoning_def Map_clear_def
      intro!: distinct_Map_set distinct_fold_handle_callback)

text \<open>
  Claim C7. The reasoning cache is cleared at the start of every session: what a session
  does is the same whatever the cache held before. At completion the trim leaves the cache
  as it stood just before, less its oldest entries (by insertion order) down to exactly 50
  when it held more than 50. Starting from the cleared cache, inserting any entries with
  distinct keys and trimming leaves the most recently inserted 50, so 60 sequential entries
  leave exactly the last 50.
\<close>

theorem cache_cleared_and_trimmed:
  "provideLanguageModelChatResponse r i cache cbs = provideLanguageModelChatResponse r i [] cbs \<and>
   reasoningCache (provideLanguageModelChatResponse r i cache (cbs @ [OnDone])) =
     drop (length (untrimmed_cache r i cbs) - 50) (untrimmed_cache r i cbs) \<and>
   length (reasoningCache (provideLanguageModelChatResponse r i cache (cbs @ [OnDone]))) =
     min 50 (length (untrimmed_cache r i cbs)) \<and>
   (distinct (map fst kvs) \<longrightarrow>
      trim_cache (insert_all kvs (Map_clear cache)) = drop (length kvs - 50) kvs)"
proof -
  have a: "provideLanguageModelChatResponse r i cache cbs =
      provideLanguageModelChatResponse r i [] cbs" for cbs
    by (simp add: provideLanguageModelChatResponse_def Map_clear_def)
  have b: "reasoningCache (provideLanguageModelChatResponse r i cache (cbs @ [OnDone])) =
     drop (length (untrimmed_cache r i cbs) - 50) (untrimmed_cache r i cbs)"
    using trim_cache_drop [OF distinct_untrimmed [of r i cbs]]
    by (simp add: a [of "cbs @ [OnDone]"] untrimmed_cache_def)
       (simp add: provideLanguageModelChatResponse_def handle_callback_def onDone_def Let_def)
  have c: "distinct (map fst kvs) \<longrightarrow>
      trim_cache (insert_all kvs (Map_clear cache)) = drop (length kvs - 50) kvs"
    using insert_all_fresh [of "[]" kvs] by (auto simp: Map_clear_def trim_cache_drop)
  from a b c show ?thesis by (simp add: min_def)
qed

text \<open>
  Sixty entries with the keys \<^verbatim>\<open>0\<close> to \<^verbatim>\<open>59\<close> leave those with the keys \<^verbatim>\<open>10\<close> to \<^verbatim>\<open>59\<close>, also
  as the cache of a session of sixty tool calls, each after some reasoning, that started
  with an old entry in the cache.
\<close>

theorem cache_cleared_and_trimmed_witness:
  "distinct (map fst (numbered_entries 0 60)) \<and>
   trim_cache (insert_all (numbered_entries 0 60) (Map_clear [(''old'', ''x'')])) =
     numbered_entries 10 60 \<and>
   reasoningCache (provideLanguageModelChatResponse True ''response_1'' [(''old'', ''x'')]
     (numbered_calls 60 @ [OnDone])) = numbered_entries 10 60"
proof -
  have d: "distinct (map fst (numbered_entries 0 60))" by code_simp
  have e: "drop (length (numbered_entries 0 60) - 50) (numbered_entries 0 60) =
      numbered_entries 10 60"
    by code_simp
  have u: "untrimmed_cache True ''response_1'' (numbered_calls 60) = numbered_entries 0 60"
    by code_simp
  note t = cache_cleared_and_trimmed [of True "''response_1''" "[(''old'', ''x'')]"
      "numbered_calls 60" "numbered_entries 0 60"]
  from t d have 1: "trim_cache (insert_all (numbered_entries 0 60) (Map_clear [(''old'', ''x'')])) =
      drop (length (numbered_entries 0 60) - 50) (numbered_entries 0 60)"
    by blast
  from t have 2: "reasoningCache (provideLanguageModelChatResponse True ''response_1''
      [(''old'', ''x'')] (numbered_calls 60 @ [OnDone])) =
      drop (length (untrimmed_cache True ''response_1'' (numbered_calls 60)) - 50)
        (untrimmed_cache True ''response_1'' (numbered_calls 60))"
    by blast
  from d 1 2 show ?thesis unfolding u e by blast
qed

section \<open>The message bridge\<close>

lemma collect_part_step:
  "collect_part sf si pt (t, cs, rs) =
     (t @ text_of_part pt, cs @ call_of_part sf pt, rs @ result_of_part si pt)"
  by (cases pt) (simp_all add: collect_part_def text_of_part_def call_of_part_def result_of_part_def)

text \<open>The loop over the parts collects the texts, the tool calls and the tool results, each in order.\<close>

lemma fold_collect_part:
  "fold (collect_part sf si) ps (t, cs, rs) =
     (t @ concat (map text_of_part ps), cs @ concat (map (call_of_part sf) ps),
      rs @ concat (map (result_of_part si) ps))"
  by (induction ps arbitrary: t cs rs) (simp_all add: collect_part_step)

lemma tool_messages_map:
  "map (\<lambda>tr. \<lparr>role = ''tool'', content = snd tr, tool_call_id = Some (fst tr),
               tool_calls = None, reasoning_content = None\<rparr>)
     (concat (map (result_of_part si) ps)) =
   concat (map (tool_message si) ps)"
  by (induction ps) (auto simp: tool_message_def result_of_part_def split: part.splits)

text \<open>
  Claim C8, amended. For every turn whose role is not assistant, the bridge concatenates
  the text parts and emits exactly one \<^verbatim>\<open>user\<close> wire message with that content when the
  concatenation is not empty and no \<^verbatim>\<open>user\<close> wire message when it is empty; after it come
  one \<^verbatim>\<open>tool\<close> wire message for every tool-result part of the turn, in order, and nothing
  else. So a turn without tool-result parts gives that one message or none: bridging a user
  turn with the text \<^verbatim>\<open>hi\<close> gives the single message with the role \<^verbatim>\<open>user\<close> and the content
  \<^verbatim>\<open>hi\<close>, and bridging a user turn without parts gives no message.
\<close>

theorem user_turn_bridged:
  "(msg_role m \<noteq> Assistant \<longrightarrow>
      convertMessage sf si cache isReasoner m =
        (if concat (map text_of_part (msg_content m)) \<noteq> []
         then [user_message (concat (map text_of_part (msg_content m)))] else []) @
        concat (map (tool_message si) (msg_content m))) \<and>
   convertMessages sf si cache isReasoner [\<lparr>msg_role = User, msg_content = [TextPart ''hi'']\<rparr>] =
     [\<lparr>role = ''user'', content = ''hi'', tool_call_id = None, tool_calls = None,
       reasoning_content = None\<rparr>] \<and>
   convertMessages sf si cache isReasoner [\<lparr>msg_role = User, msg_content = []\<rparr>] = []"
proof -
  note f = fold_collect_part [of sf si "msg_content m" "[]" "[]" "[]", simplified]
  have r: "msg_role m \<noteq> Assistant \<Longrightarrow> mapRole (msg_role m) = ''user''"
    by (cases "msg_role m") (simp_all add: mapRole_def)
  have 1: "msg_role m \<noteq> Assistant \<longrightarrow>
      convertMessage sf si cache isReasoner m =
        (if concat (map text_of_part (msg_content m)) \<noteq> []
         then [user_message (concat (map text_of_part (msg_content m)))] else []) @
        concat (map (tool_message si) (msg_content m))"
    by (auto simp: convertMessage_def f r tool_messages_map user_message_def)
  have 2: "convertMessages sf si cache isReasoner
      [\<lparr>msg_role = User, msg_content = [TextPart ''hi'']\<rparr>] =
     [\<lparr>role = ''user'', content = ''hi'', tool_call_id = None, tool_calls = None,
       reasoning_content = None\<rparr>]"
    by (simp add: convertMessage_def collect_part_def mapRole_def)
  have 3: "convertMessages sf si cache isReasoner [\<lparr>msg_role = User, msg_content = []\<rparr>] = []"
    by (simp add: convertMessage_def mapRole_def)
  from 1 2 3 show ?thesis by blast
qed

text \<open>A user turn with the text \<^verbatim>\<open>hi\<close> and the result \<^verbatim>\<open>42\<close> of the tool call \<^verbatim>\<open>call_a\<close>.\<close>

theorem user_turn_bridged_witness:
  "msg_role \<lparr>msg_role = User,
      msg_content = [TextPart ''hi'', ToolResultPart ''call_a'' [ItemText ''42'']]\<rparr> \<noteq> Assistant \<and>
   convertMessage (\<lambda>j. []) (\<lambda>items. []) [] False
     \<lparr>msg_role = User,
      msg_content = [TextPart ''hi'', ToolResultPart ''call_a'' [ItemText ''42'']]\<rparr> =
   [\<lparr>role = ''user'', content = ''hi'', tool_call_id = None, tool_calls = None,
     reasoning_content = None\<rparr>,
    \<lparr>role = ''tool'', content = ''42'', tool_call_id = Some ''call_a'', tool_calls = None,
     reasoning_content = None\<rparr>]"
proof -
  let ?m = "\<lparr>msg_role = User,
      msg_content = [TextPart ''hi'', ToolResultPart ''call_a'' [ItemText ''42'']]\<rparr>"
  have h: "msg_role ?m \<noteq> Assistant" by simp
  from h user_turn_bridged [of ?m "\<lambda>j. []" "\<lambda>items. []" "[]" False]
  have "convertMessage (\<lambda>j. []) (\<lambda>items. []) [] False ?m =
        (if concat (map text_of_part (msg_content ?m)) \<noteq> []
         then [user_message (concat (map text_of_part (msg_content ?m)))] else []) @
        concat (map (tool_message (\<lambda>items. [])) (msg_content ?m))"
    by blast
  then have "convertMessage (\<lambda>j. []) (\<lambda>items. []) [] False ?m =
   [\<lparr>role = ''user'', content = ''hi'', tool_call_id = None, tool_calls = None,
     reasoning_content = None\<rparr>,
    \<lparr>role = ''tool'', content = ''42'', tool_call_id = Some ''call_a'', tool_calls = None,
     reasoning_content = None\<rparr>]"
    by (simp add: text_of_part_def tool_message_def user_message_def)
  with h show ?thesis by blast
qed

text \<open>
  A user turn whose only part is the result \<^verbatim>\<open>42\<close> of the tool call \<^verbatim>\<open>call_a\<close>: the
  concatenation of its text parts is empty, and the bridge emits a wire message for it.
\<close>

theorem user_turn_tool_result_counterexample:
  "concat (map text_of_part [ToolResultPart ''call_a'' [ItemText ''42'']]) = [] \<and>
   convertMessages (\<lambda>j. []) (\<lambda>items. []) [] False
     [\<lparr>msg_role = User, msg_content = [ToolResultPart ''call_a'' [ItemText ''42'']]\<rparr>] =
   [\<lparr>role = ''tool'', content = ''42'', tool_call_id = Some ''call_a'', tool_calls = None,
     reasoning_content = None\<rparr>]"
  by (simp add: convertMessage_def collect_part_def mapRole_def text_of_part_def)

end
